theory Spec2Isabelle
  imports Complex_Main "HOL-Library.AList"
begin

section \<open>JavaScript values used by the sample application\<close>

text \<open>
  The product-management sample application (webapp/) is JavaScript on top of the UI5
  framework.  The parts of the language its handlers rely on are written out here:
  truthiness, \<open>parseInt(s, 10)\<close> and \<open>Number.prototype.toString\<close> on integers, and
  further down \<open>parseFloat\<close> and \<open>toFixed(2)\<close> for the formatter.

  Strings are lists of 8-bit characters.  JavaScript numbers are binary64 doubles.
  The ID generator only meets integers, NaN and the infinities; these are the type
  \<open>jsint\<close>, and every integer that \<open>parseInt\<close> or an addition produces is rounded to
  the nearest double by \<open>round64\<close>.  The formatter meets fractions; there a finite
  number is the exact value of the double, a \<open>rat\<close>.
\<close>

datatype jsnum = NaN | PosInf | NegInf | Fin rat

datatype jsval = JUndefined | JNull | JBool bool | JNum jsnum | JStr string

text \<open>\<open>!v\<close> holds for undefined, null, false, NaN, 0 and the empty string.\<close>

fun falsy :: "jsval \<Rightarrow> bool" where
  "falsy JUndefined = True"
| "falsy JNull = True"
| "falsy (JBool b) = (\<not> b)"
| "falsy (JNum NaN) = True"
| "falsy (JNum (Fin x)) = (x = 0)"
| "falsy (JNum PosInf) = False"
| "falsy (JNum NegInf) = False"
| "falsy (JStr s) = (s = [])"

definition is_digit :: "char \<Rightarrow> bool" where
  "is_digit c = (48 \<le> (of_char c :: nat) \<and> (of_char c :: nat) \<le> 57)"

definition digit_val :: "char \<Rightarrow> nat" where
  "digit_val c = of_char c - 48"

definition digit_char :: "nat \<Rightarrow> char" where
  "digit_char d = char_of (48 + d)"

text \<open>White space skipped by \<open>parseInt\<close> and \<open>parseFloat\<close>: TAB, LF, VT, FF, CR, space
  and the no-break space.\<close>

definition is_ws :: "char \<Rightarrow> bool" where
  "is_ws c = ((of_char c :: nat) \<in> {9, 10, 11, 12, 13, 32, 160})"

text \<open>The value of a run of decimal digits, most significant digit first.\<close>

definition digits_val :: "string \<Rightarrow> nat" where
  "digits_val ds = foldl (\<lambda>acc c. 10 * acc + digit_val c) 0 ds"

text \<open>The sign prefix of a numeric string: its factor and the rest of the string.\<close>

fun strip_sign :: "string \<Rightarrow> int \<times> string" where
  "strip_sign [] = (1, [])"
| "strip_sign (c # cs) =
     (if c = CHR ''-'' then (-1, cs) else if c = CHR ''+'' then (1, cs) else (1, c # cs))"

text \<open>The decimal digits of a natural number, and of an integer with its sign.\<close>

function show_nat :: "nat \<Rightarrow> string" where
  "show_nat n = (if n < 10 then [digit_char n] else show_nat (n div 10) @ [digit_char (n mod 10)])"
  by pat_completeness auto
termination
  by (relation "measure (\<lambda>n. n)") auto

declare show_nat.simps [simp del]

definition show_int :: "int \<Rightarrow> string" where
  "show_int i = (if i < 0 then CHR ''-'' # show_nat (nat (- i)) else show_nat (nat i))"

subsection \<open>Integers as doubles\<close>

datatype jsint = IntNaN | IntFin int | IntPosInf | IntNegInf

text \<open>The number of binary digits of a natural number.\<close>

function bit_length :: "nat \<Rightarrow> nat" where
  "bit_length n = (if n = 0 then 0 else Suc (bit_length (n div 2)))"
  by pat_completeness auto
termination
  by (relation "measure (\<lambda>n. n)") auto

declare bit_length.simps [simp del]

text \<open>
  The double nearest to a natural number.  Below \<open>2 ^ 53\<close> every integer is a double.
  Above, a double has 53 significant binary digits: \<open>m\<close> is cut into \<open>k * q + r\<close> with
  \<open>q\<close> the weight of the last kept digit, and rounded to the nearer of \<open>k * q\<close> and
  \<open>(k + 1) * q\<close>, to the even \<open>k\<close> when \<open>r\<close> is exactly half of \<open>q\<close>.  From \<open>2 ^ 1024\<close> on the
  result is infinite: \<open>None\<close>.
\<close>

definition round64_nat :: "nat \<Rightarrow> nat option" where
  "round64_nat m =
     (if m < 2 ^ 53 then Some m
      else
        let q = 2 ^ (bit_length m - 53);
            k = m div q;
            r = m mod q;
            v = (if q < 2 * r \<or> (2 * r = q \<and> odd k) then k + 1 else k) * q
        in if 2 ^ 1024 \<le> v then None else Some v)"

definition round64 :: "int \<Rightarrow> jsint" where
  "round64 i =
     (case round64_nat (nat \<bar>i\<bar>) of
        None \<Rightarrow> if i < 0 then IntNegInf else IntPosInf
      | Some v \<Rightarrow> IntFin (if i < 0 then - int v else int v))"

text \<open>
  \<open>parseInt(s, 10)\<close>: leading white space is dropped, one sign is read, then the longest
  run of decimal digits.  Without a digit the result is NaN.  The value of the digits
  becomes a number, that is, a double.  (Beyond 20 significant digits the standard
  lets an implementation replace further digits by zeros; here the exact value is
  rounded.)
\<close>

definition parseInt :: "string \<Rightarrow> jsint" where
  "parseInt s =
     (let (sign, r) = strip_sign (dropWhile is_ws s);
          z = takeWhile is_digit r
      in if z = [] then IntNaN else round64 (sign * int (digits_val z)))"

text \<open>\<open>a > b\<close>: false as soon as one side is NaN.\<close>

fun greater :: "jsint \<Rightarrow> jsint \<Rightarrow> bool" where
  "greater IntNaN b = False"
| "greater a IntNaN = False"
| "greater IntPosInf b = (b \<noteq> IntPosInf)"
| "greater IntNegInf b = False"
| "greater (IntFin a) IntPosInf = False"
| "greater (IntFin a) IntNegInf = True"
| "greater (IntFin a) (IntFin b) = (b < a)"

text \<open>\<open>a + 1\<close>: the sum is rounded to a double again.\<close>

fun add_one :: "jsint \<Rightarrow> jsint" where
  "add_one (IntFin a) = round64 (a + 1)"
| "add_one a = a"

text \<open>
  \<open>Number.prototype.toString\<close> on an integer.  Below \<open>10 ^ 21\<close> all decimal digits are
  printed.  From \<open>10 ^ 21\<close> on the notation is exponential: the digits are those of the
  shortest \<open>s\<close> (of \<open>k\<close> digits) for which \<open>s * 10 ^ (n - k)\<close> is rounded to the number, and the
  exponent is \<open>n - 1\<close>.  Among several \<open>s\<close> of the same length the one nearest to the
  number is taken, the even one of two equally near ones.  Seventeen digits always
  suffice for a double; for an argument that is no double all digits are printed.
\<close>

definition exp_candidates :: "nat \<Rightarrow> nat \<Rightarrow> (nat \<times> nat) list" where
  "exp_candidates m k =
     concat (map (\<lambda>n. if n < k then []
                       else filter (\<lambda>(s, n). 10 ^ (k - 1) \<le> s \<and> s < 10 ^ k
                                      \<and> round64_nat (s * 10 ^ (n - k)) = Some m)
                              [(m div 10 ^ (n - k), n), (m div 10 ^ (n - k) + 1, n)])
                 [length (show_nat m) - 1, length (show_nat m), length (show_nat m) + 1])"

definition nearer :: "nat \<Rightarrow> nat \<Rightarrow> nat \<times> nat \<Rightarrow> nat \<times> nat \<Rightarrow> nat \<times> nat" where
  "nearer m k a b =
     (let da = \<bar>int (fst a * 10 ^ (snd a - k)) - int m\<bar>;
          db = \<bar>int (fst b * 10 ^ (snd b - k)) - int m\<bar>
      in if db < da \<or> (db = da \<and> even (fst b) \<and> odd (fst a)) then b else a)"

function shortest :: "nat \<Rightarrow> nat \<Rightarrow> (nat \<times> nat \<times> nat) option" where
  "shortest m k =
     (if 17 < k then None
      else case exp_candidates m k of
             [] \<Rightarrow> shortest m (Suc k)
           | c # cs \<Rightarrow> Some (k, foldl (nearer m k) c cs))"
  by pat_completeness auto
termination
  by (relation "measure (\<lambda>(m, k). 18 - k)") auto

declare shortest.simps [simp del]

definition exponential :: "nat \<Rightarrow> string" where
  "exponential m =
     (case shortest m 1 of
        None \<Rightarrow> show_nat m
      | Some (k, s, n) \<Rightarrow>
          (if k = 1 then show_nat s else take 1 (show_nat s) @ ''.'' @ drop 1 (show_nat s))
          @ ''e+'' @ show_nat (n - 1))"

definition show_number :: "nat \<Rightarrow> string" where
  "show_number m = (if m < 10 ^ 21 then show_nat m else exponential m)"

fun toString :: "jsint \<Rightarrow> string" where
  "toString IntNaN = ''NaN''"
| "toString IntPosInf = ''Infinity''"
| "toString IntNegInf = ''-Infinity''"
| "toString (IntFin i) =
     (if i < 0 then CHR ''-'' # show_number (nat (- i)) else show_number (nat i))"

section \<open>Data model\<close>

text \<open>
  A product as the seed data and the forms have it.  \<open>ProductID\<close> is optional: the object
  that \<open>_onCreateMatched\<close> builds has no such property until \<open>onSavePress\<close> assigns it, and
  reading an absent property gives \<open>undefined\<close> (\<open>None\<close>).  \<open>Price\<close>, \<open>Quantity\<close> and
  \<open>Rating\<close> hold whatever the form wrote, a number or a string.  \<open>Specifications\<close> is an
  object used as a string-to-string mapping, kept as an association list.
\<close>

type_synonym specifications = "(string \<times> string) list"

record product =
  ProductID :: "string option"
  Name :: string
  Description :: string
  Price :: jsval
  Currency :: string
  Category :: string
  SupplierName :: string
  InStock :: bool
  Quantity :: jsval
  Rating :: jsval
  ReleaseDate :: string
  Specifications :: specifications

text \<open>
  Objects live in a store and are named by their index in it.  The products array holds
  references, so pushing the form's object into the array shares it with the form, as
  \<open>aProducts.push(oProduct)\<close> and \<open>aProducts[i] = oProduct\<close> do.
\<close>

type_synonym ref = nat

datatype route = RMaster | RDetail "string option"

datatype effect =
    MessageBoxError string
  | MessageBoxConfirm string
  | MessageToast string
  | NavTo route
  | NavToReplace route
  | HistoryGoBack

datatype action = OK | CANCEL | YES | NO | ABORT | RETRY | IGNORE | CLOSE | DELETE

text \<open>Filters as \<open>onSearch\<close> builds them: a test of one property, or a group of filters
  combined with AND (\<open>True\<close>) or OR (\<open>False\<close>).\<close>

datatype filter_operator = Contains

datatype filter =
    Filter string filter_operator string
  | MultiFilter "filter list" bool

record app =
  store :: "product list"
  aProducts :: "ref list"
  previousHash :: "string option"
  createModel :: "ref option"
  createSpecs :: "(string \<times> string) list"
  editModel :: "ref option"
  editSpecs :: "(string \<times> string) list"
  productIndex :: "nat option"
  detailModel :: "ref option"
  detailContext :: "nat option"
  detailSpecs :: specifications
  confirmDelete :: "string option option"
  listFilters :: "filter list"

text \<open>The records of the products array, in array order.\<close>

definition products :: "app \<Rightarrow> product list" where
  "products st = map (\<lambda>r. store st ! r) (aProducts st)"

text \<open>Every reference held by the application names an object of the store.\<close>

definition ref_ok :: "app \<Rightarrow> ref option \<Rightarrow> bool" where
  "ref_ok st m = (case m of None \<Rightarrow> True | Some r \<Rightarrow> r < length (store st))"

definition refs_ok :: "app \<Rightarrow> bool" where
  "refs_ok st = (list_all (\<lambda>r. r < length (store st)) (aProducts st)
            \<and> ref_ok st (createModel st) \<and> ref_ok st (editModel st) \<and> ref_ok st (detailModel st))"

section \<open>Helpers shared by the controllers\<close>

text \<open>\<open>String(v)\<close> for a property that is a string or absent.\<close>

definition js_string :: "string option \<Rightarrow> string" where
  "js_string v = (case v of None \<Rightarrow> ''undefined'' | Some s \<Rightarrow> s)"

text \<open>The scan \<open>for (i = 0; i < a.length; i++) if (test(a[i])) { ...; break; }\<close>: the first
  index that passes the test.\<close>

fun find_index :: "('a \<Rightarrow> bool) \<Rightarrow> 'a list \<Rightarrow> nat option" where
  "find_index P [] = None"
| "find_index P (x # xs) =
     (if P x then Some 0 else map_option Suc (find_index P xs))"

text \<open>\<open>a.splice(i, 1)\<close>.\<close>

definition splice1 :: "nat \<Rightarrow> 'a list \<Rightarrow> 'a list" where
  "splice1 i xs = take i xs @ drop (Suc i) xs"

text \<open>
  \<open>a[i] = v\<close>.  Writing at \<open>a.length\<close> appends.  Writing beyond it leaves holes in the
  array, which the lists of this model do not represent: \<open>None\<close>.
\<close>

definition array_set :: "'a list \<Rightarrow> nat \<Rightarrow> 'a \<Rightarrow> 'a list option" where
  "array_set xs i v =
     (if i < length xs then Some (xs[i := v])
      else if i = length xs then Some (xs @ [v])
      else None)"

text \<open>The specification rows of a form, turned back into an object: a row counts when
  its key and its value are both non-empty, and a later row overwrites an earlier one
  with the same key.  The list stands for the mapping only: the order in which
  JavaScript lists the keys of an object (integer-like keys first) and the special key
  \<open>__proto__\<close> are not represented, and no property below depends on them.\<close>

definition collect_specs :: "(string \<times> string) list \<Rightarrow> specifications" where
  "collect_specs aSpecs =
     foldl (\<lambda>oSpecifications (k, v).
              if k \<noteq> [] \<and> v \<noteq> [] then AList.update k v oSpecifications
              else oSpecifications) [] aSpecs"

text \<open>\<open>JSON.parse(JSON.stringify(p))\<close>: a new object; NaN and the infinities are written
  as \<open>null\<close>, an undefined property is left out and so reads as undefined again.\<close>

fun json_value :: "jsval \<Rightarrow> jsval" where
  "json_value (JNum NaN) = JNull"
| "json_value (JNum PosInf) = JNull"
| "json_value (JNum NegInf) = JNull"
| "json_value v = v"

definition json_copy :: "product \<Rightarrow> product" where
  "json_copy p = p\<lparr>Price := json_value (Price p), Quantity := json_value (Quantity p),
                   Rating := json_value (Rating p)\<rparr>"

text \<open>The property of a view's \<open>products\<close> model.  A view that has not set a model of
  its own sees the component's model, whose data is the array, and the property reads
  as undefined.\<close>

definition model_ProductID :: "app \<Rightarrow> ref option \<Rightarrow> string option" where
  "model_ProductID st m = (case m of None \<Rightarrow> None | Some r \<Rightarrow> ProductID (store st ! r))"

definition model_Name :: "app \<Rightarrow> ref option \<Rightarrow> string" where
  "model_Name st m = (case m of None \<Rightarrow> ''undefined'' | Some r \<Rightarrow> Name (store st ! r))"

text \<open>The test \<open>!oProduct.Name || !oProduct.Price\<close> of both save handlers.\<close>

definition required_missing :: "product \<Rightarrow> bool" where
  "required_missing oProduct = (Name oProduct = [] \<or> falsy (Price oProduct))"

text \<open>Two-way binding: what the user types is written into the form's object in
  place, and the rows of the specifications table are replaced.\<close>

definition form_input ::
  "(product \<Rightarrow> product) \<Rightarrow> ref option \<Rightarrow> app \<Rightarrow> app" where
  "form_input f m st =
     (case m of None \<Rightarrow> st
      | Some r \<Rightarrow> st\<lparr>store := (store st)[r := f (store st ! r)]\<rparr>)"

section \<open>Create controller\<close>

text \<open>\<open>_onCreateMatched\<close>: a new object with the default values becomes the view's
  model; \<open>today\<close> is the current date as \<open>YYYY-MM-DD\<close>.\<close>

definition new_product :: "string \<Rightarrow> product" where
  "new_product today =
     \<lparr>ProductID = None, Name = [], Description = [], Price = JNum (Fin 0),
      Currency = ''USD'', Category = [], SupplierName = [], InStock = True,
      Quantity = JNum (Fin 0), Rating = JNum (Fin 0), ReleaseDate = today,
      Specifications = []\<rparr>"

definition Create_onCreateMatched :: "string \<Rightarrow> app \<Rightarrow> app" where
  "Create_onCreateMatched today st =
     st\<lparr>store := store st @ [new_product today],
        createModel := Some (length (store st)),
        createSpecs := Specifications (new_product today)\<rparr>"

definition Create_input ::
  "(product \<Rightarrow> product) \<Rightarrow> (string \<times> string) list \<Rightarrow> app \<Rightarrow> app" where
  "Create_input f rows st = (form_input f (createModel st) st)\<lparr>createSpecs := rows\<rparr>"

text \<open>\<open>_generateProductId\<close>: the scan keeps the largest \<open>ProductID\<close> that parses to a
  number above what it has, starting from 0; the comparison \<open>iId > iMaxId\<close> is false
  for NaN.  The result is the string of that maximum plus 1.\<close>

definition generateProductId :: "app \<Rightarrow> string" where
  "generateProductId st =
     toString
       (add_one
          (foldl (\<lambda>iMaxId product.
                    let iId = parseInt (js_string (ProductID product))
                    in if greater iId iMaxId then iId else iMaxId)
                 (IntFin 0) (products st)))"

text \<open>\<open>onSavePress\<close>.  Without a model of its own the view reads the array itself, which
  has neither \<open>Name\<close> nor \<open>Price\<close>, and the validation fails.\<close>

definition Create_onSavePress :: "app \<Rightarrow> effect list \<times> app" where
  "Create_onSavePress st =
     (case createModel st of
        None \<Rightarrow> ([MessageBoxError ''Please fill in all required fields''], st)
      | Some r \<Rightarrow>
          if required_missing (store st ! r)
          then ([MessageBoxError ''Please fill in all required fields''], st)
          else
            let st1 = st\<lparr>store := (store st)
                     [r := (store st ! r)\<lparr>Specifications := collect_specs (createSpecs st)\<rparr>]\<rparr>;
                sId = generateProductId st1;
                st2 = st1\<lparr>store := (store st1)[r := (store st1 ! r)\<lparr>ProductID := Some sId\<rparr>]\<rparr>;
                st3 = st2\<lparr>aProducts := aProducts st2 @ [r]\<rparr>
            in ([MessageToast ''Product created successfully'', NavTo RMaster], st3))"

section \<open>Edit controller\<close>

text \<open>\<open>onNavBack\<close> of the Edit view: back in the browser history, or to the detail page
  of the product in the form when there is no history.\<close>

definition Edit_onNavBack :: "app \<Rightarrow> effect list" where
  "Edit_onNavBack st =
     (if previousHash st \<noteq> None then [HistoryGoBack]
      else [NavToReplace (RDetail (model_ProductID st (editModel st)))])"

text \<open>\<open>_onEditMatched\<close>: the scan stores the index it stops at; the form works on a copy
  of the record found.\<close>

definition Edit_onEditMatched :: "string \<Rightarrow> app \<Rightarrow> effect list \<times> app" where
  "Edit_onEditMatched sProductId st =
     (case find_index (\<lambda>r. ProductID (store st ! r) = Some sProductId) (aProducts st) of
        Some i \<Rightarrow>
          let oEditProduct = json_copy (store st ! (aProducts st ! i))
          in ([], st\<lparr>store := store st @ [oEditProduct],
                     editModel := Some (length (store st)),
                     editSpecs := Specifications oEditProduct,
                     productIndex := Some i\<rparr>)
      | None \<Rightarrow> (MessageToast ''Product not found'' # Edit_onNavBack st, st))"

definition Edit_input ::
  "(product \<Rightarrow> product) \<Rightarrow> (string \<times> string) list \<Rightarrow> app \<Rightarrow> app" where
  "Edit_input f rows st = (form_input f (editModel st) st)\<lparr>editSpecs := rows\<rparr>"

text \<open>\<open>onSavePress\<close>: the form's object replaces the array element at the stored index.
  The result is \<open>None\<close> when that write would leave holes in the array.\<close>

definition Edit_onSavePress :: "app \<Rightarrow> (effect list \<times> app) option" where
  "Edit_onSavePress st =
     (case editModel st of
        None \<Rightarrow> Some ([MessageBoxError ''Please fill in all required fields''], st)
      | Some r \<Rightarrow>
          if required_missing (store st ! r)
          then Some ([MessageBoxError ''Please fill in all required fields''], st)
          else
            let st1 = st\<lparr>store := (store st)
                     [r := (store st ! r)\<lparr>Specifications := collect_specs (editSpecs st)\<rparr>]\<rparr>
            in case productIndex st of
                 Some i \<Rightarrow>
                   (case array_set (aProducts st1) i r of
                      Some a \<Rightarrow>
                        Some ([MessageToast ''Product updated successfully'',
                               NavTo (RDetail (ProductID (store st1 ! r)))],
                              st1\<lparr>aProducts := a\<rparr>)
                    | None \<Rightarrow> None)
               | None \<Rightarrow> Some ([MessageBoxError ''Error updating product''], st1))"

section \<open>Detail controller\<close>

definition Detail_onNavBack :: "app \<Rightarrow> effect list" where
  "Detail_onNavBack st =
     (if previousHash st \<noteq> None then [HistoryGoBack] else [NavToReplace RMaster])"

text \<open>\<open>_onProductMatched\<close>: the record found becomes the view's model (the same object,
  not a copy), the binding context is its index, and its specifications are laid out
  as label and text pairs.\<close>

definition Detail_onProductMatched :: "string \<Rightarrow> app \<Rightarrow> effect list \<times> app" where
  "Detail_onProductMatched sProductId st =
     (case find_index (\<lambda>r. ProductID (store st ! r) = Some sProductId) (aProducts st) of
        Some i \<Rightarrow>
          ([], st\<lparr>detailModel := Some (aProducts st ! i),
                  detailContext := Some i,
                  detailSpecs := Specifications (store st ! (aProducts st ! i))\<rparr>)
      | None \<Rightarrow> (MessageToast ''Product not found'' # Detail_onNavBack st, st))"

text \<open>\<open>onDeletePress\<close> opens the confirm dialog; the callback of the dialog keeps the
  \<open>ProductID\<close> read when the button was pressed.\<close>

definition Detail_onDeletePress :: "app \<Rightarrow> effect list \<times> app" where
  "Detail_onDeletePress st =
     ([MessageBoxConfirm
         (''Are you sure you want to delete product '' @ [CHR 0x27]
            @ model_Name st (detailModel st) @ [CHR 0x27] @ ''?'')],
      st\<lparr>confirmDelete := Some (model_ProductID st (detailModel st))\<rparr>)"

text \<open>\<open>onClose\<close> of the confirm dialog; without an open dialog there is nothing to
  close.  The comparison \<open>===\<close> with an undefined \<open>sProductId\<close> matches a record
  without \<open>ProductID\<close>.\<close>

definition Detail_onClose :: "action \<Rightarrow> app \<Rightarrow> effect list \<times> app" where
  "Detail_onClose oAction st =
     (case confirmDelete st of
        None \<Rightarrow> ([], st)
      | Some sProductId \<Rightarrow>
          if oAction = OK
          then
            ([MessageToast ''Product deleted successfully'', NavTo RMaster],
             st\<lparr>aProducts :=
                   (case find_index (\<lambda>r. ProductID (store st ! r) = sProductId) (aProducts st) of
                      Some i \<Rightarrow> splice1 i (aProducts st)
                    | None \<Rightarrow> aProducts st),
                confirmDelete := None\<rparr>)
          else ([], st\<lparr>confirmDelete := None\<rparr>))"

section \<open>Master controller\<close>

text \<open>The search event carries \<open>query\<close> (search) or \<open>newValue\<close> (live change).\<close>

record search_event =
  query :: "string option"
  newValue :: "string option"

definition truthy_string :: "string option \<Rightarrow> bool" where
  "truthy_string v = (case v of None \<Rightarrow> False | Some s \<Rightarrow> s \<noteq> [])"

text \<open>\<open>oEvent.getParameter("query") || oEvent.getParameter("newValue")\<close>.\<close>

definition event_query :: "search_event \<Rightarrow> string option" where
  "event_query oEvent =
     (if truthy_string (query oEvent) then query oEvent else newValue oEvent)"

text \<open>\<open>onSearch\<close> sets the filters of the list binding: one OR group of three
  \<open>Contains\<close> filters for a truthy query, no filter otherwise.\<close>

definition Master_onSearch :: "search_event \<Rightarrow> app \<Rightarrow> app" where
  "Master_onSearch oEvent st =
     (case event_query oEvent of
        None \<Rightarrow> st\<lparr>listFilters := []\<rparr>
      | Some sQuery \<Rightarrow>
          if sQuery \<noteq> []
          then st\<lparr>listFilters :=
                    [MultiFilter [Filter ''Name'' Contains sQuery,
                                  Filter ''Description'' Contains sQuery,
                                  Filter ''Category'' Contains sQuery] False]\<rparr>
          else st\<lparr>listFilters := []\<rparr>)"

text \<open>
  What the list binding shows.  The test behind \<open>FilterOperator.Contains\<close> belongs to
  the framework and is the parameter \<open>contains\<close>, applied to the value of the property
  and the value of the filter.  A filter on a property that holds no string matches
  nothing.  The filters given to \<open>filter\<close> all have to pass; a group passes when all
  (AND) or one (OR) of its members pass.
\<close>

definition string_property :: "string \<Rightarrow> product \<Rightarrow> string option" where
  "string_property sPath p =
     (if sPath = ''ProductID'' then ProductID p
      else if sPath = ''Name'' then Some (Name p)
      else if sPath = ''Description'' then Some (Description p)
      else if sPath = ''Currency'' then Some (Currency p)
      else if sPath = ''Category'' then Some (Category p)
      else if sPath = ''SupplierName'' then Some (SupplierName p)
      else if sPath = ''ReleaseDate'' then Some (ReleaseDate p)
      else None)"

fun passes :: "(string \<Rightarrow> string \<Rightarrow> bool) \<Rightarrow> product \<Rightarrow> filter \<Rightarrow> bool" where
  "passes contains p (Filter sPath Contains v) =
     (case string_property sPath p of None \<Rightarrow> False | Some s \<Rightarrow> contains s v)"
| "passes contains p (MultiFilter fs bAnd) =
     (if bAnd then list_all (passes contains p) fs else list_ex (passes contains p) fs)"

definition shown :: "(string \<Rightarrow> string \<Rightarrow> bool) \<Rightarrow> app \<Rightarrow> product list" where
  "shown contains st =
     filter (\<lambda>p. list_all (passes contains p) (listFilters st)) (products st)"

text \<open>
  Modelled from the spec: the string test behind \<open>FilterOperator.Contains\<close> is code of
  the UI5 framework and not part of the sources.  The spec calls the search a substring
  filter: the value of the filter occurs somewhere in the value of the property.  (How
  the framework compares the characters, for instance whether it ignores case, is not
  fixed here; the properties of \<open>onSearch\<close> hold for any test.)
\<close>

definition is_substring :: "string \<Rightarrow> string \<Rightarrow> bool" where
  "is_substring s v =
     list_ex (\<lambda>n. take (length v) (drop n s) = v) [0..<Suc (length s)]"

section \<open>Formatter\<close>

text \<open>
  \<open>formatPrice(price, currency)\<close> is \<open>parseFloat(price).toFixed(2)\<close> behind a test of
  \<open>!price\<close>.

  \<open>parseFloat\<close> reads the longest prefix of the string that is a decimal literal (after
  leading white space): a sign, then \<open>Infinity\<close> or digits with an optional fraction and
  an optional exponent.  Without such a prefix the result is NaN.  The exact value of
  the literal is rounded to a double; that rounding is the parameter \<open>rd\<close>.  A number
  is its own \<open>parseFloat\<close>; the strings of \<open>true\<close>, \<open>false\<close>, \<open>null\<close> and \<open>undefined\<close> have
  no numeric prefix.
\<close>

definition pow10 :: "int \<Rightarrow> rat" where
  "pow10 e = (if 0 \<le> e then 10 ^ nat e else 1 / 10 ^ nat (- e))"

text \<open>The exponent part at the start of a string, \<open>e\<close> or \<open>E\<close>, a sign and digits; 0 when
  there is none.\<close>

definition exponent_part :: "string \<Rightarrow> int" where
  "exponent_part r =
     (case r of
        [] \<Rightarrow> 0
      | c # r1 \<Rightarrow>
          if c = CHR ''e'' \<or> c = CHR ''E''
          then (let (sign, r2) = strip_sign r1; ds = takeWhile is_digit r2
                in if ds = [] then 0 else sign * int (digits_val ds))
          else 0)"

definition parseFloat_string :: "(rat \<Rightarrow> jsnum) \<Rightarrow> string \<Rightarrow> jsnum" where
  "parseFloat_string rd s =
     (let (sign, u) = strip_sign (dropWhile is_ws s)
      in if take 8 u = ''Infinity'' then (if sign < 0 then NegInf else PosInf)
         else
           let ip = takeWhile is_digit u;
               r1 = dropWhile is_digit u;
               fp = (case r1 of [] \<Rightarrow> []
                     | c # r \<Rightarrow> if c = CHR ''.'' then takeWhile is_digit r else []);
               r2 = (case r1 of [] \<Rightarrow> []
                     | c # r \<Rightarrow> if c = CHR ''.'' then dropWhile is_digit r else r1)
           in if ip = [] \<and> fp = [] then NaN
              else rd (of_int sign * of_nat (digits_val (ip @ fp))
                         * pow10 (exponent_part r2 - int (length fp))))"

fun parseFloat :: "(rat \<Rightarrow> jsnum) \<Rightarrow> jsval \<Rightarrow> jsnum" where
  "parseFloat rd (JNum x) = x"
| "parseFloat rd (JStr s) = parseFloat_string rd s"
| "parseFloat rd (JBool b) = NaN"
| "parseFloat rd JNull = NaN"
| "parseFloat rd JUndefined = NaN"

text \<open>
  \<open>x.toFixed(2)\<close>.  NaN and the infinities print their names.  A finite \<open>x\<close> below
  \<open>10 ^ 21\<close> in magnitude prints the integer \<open>n\<close> nearest to \<open>100 * |x|\<close> (the larger one
  of two), padded with zeros to three digits, with a point before the last two digits
  and a minus sign for a negative \<open>x\<close>.  From \<open>10 ^ 21\<close> on the result is the exponential
  notation of \<open>toString\<close>, which is not computed here: \<open>None\<close>.
\<close>

definition toFixed2 :: "jsnum \<Rightarrow> string option" where
  "toFixed2 v =
     (case v of
        NaN \<Rightarrow> Some ''NaN''
      | PosInf \<Rightarrow> Some ''Infinity''
      | NegInf \<Rightarrow> Some ''-Infinity''
      | Fin x \<Rightarrow>
          if 10 ^ 21 \<le> \<bar>x\<bar> then None
          else
            let s = (if x < 0 then ''-'' else []);
                n = nat \<lfloor>\<bar>x\<bar> * 100 + 1 / 2\<rfloor>;
                m = show_nat n;
                m' = (if length m \<le> 2 then replicate (3 - length m) (CHR ''0'') @ m else m);
                k = length m'
            in Some (s @ take (k - 2) m' @ ''.'' @ drop (k - 2) m'))"

definition formatPrice :: "(rat \<Rightarrow> jsnum) \<Rightarrow> jsval \<Rightarrow> string \<Rightarrow> string option" where
  "formatPrice rd price currency =
     (if falsy price then Some [] else toFixed2 (parseFloat rd price))"

text \<open>A string with exactly two decimal places: an optional minus sign, at least one
  digit, a point, two digits.\<close>

definition two_decimals :: "string \<Rightarrow> bool" where
  "two_decimals s =
     (let t = (case s of [] \<Rightarrow> [] | c # r \<Rightarrow> if c = CHR ''-'' then r else s);
          ip = takeWhile is_digit t;
          r = dropWhile is_digit t
      in ip \<noteq> [] \<and> length r = 3 \<and> r ! 0 = CHR ''.'' \<and> is_digit (r ! 1) \<and> is_digit (r ! 2))"

section \<open>The flows of the application\<close>

text \<open>
  A page is opened through its route, so its route handler runs before any of its
  buttons can be pressed.  A flow is the route handler, then what the user types into
  the form, then the button.  The handlers are defined on every state, also outside
  these flows (a second Save on a Create form that was saved already pushes the same
  object once more); the properties below are about the flows.
\<close>

definition create_flow ::
  "string \<Rightarrow> (product \<Rightarrow> product) \<Rightarrow> (string \<times> string) list \<Rightarrow> app \<Rightarrow> effect list \<times> app" where
  "create_flow today f rows st =
     Create_onSavePress (Create_input f rows (Create_onCreateMatched today st))"

definition edit_flow ::
  "string \<Rightarrow> (product \<Rightarrow> product) \<Rightarrow> (string \<times> string) list \<Rightarrow> app
     \<Rightarrow> (effect list \<times> app) option" where
  "edit_flow sProductId f rows st =
     Edit_onSavePress (Edit_input f rows (snd (Edit_onEditMatched sProductId st)))"

definition delete_flow :: "string \<Rightarrow> action \<Rightarrow> app \<Rightarrow> effect list \<times> app" where
  "delete_flow sProductId oAction st =
     Detail_onClose oAction
       (snd (Detail_onDeletePress (snd (Detail_onProductMatched sProductId st))))"

text \<open>The numeric IDs of an array: the finite numbers that \<open>parseInt\<close> reads from the
  \<open>ProductID\<close> values.  They are safe when each of them is below \<open>2 ^ 53 - 1\<close> (and none
  is infinite), so that the next integer is still a double.\<close>

definition numeric_ids :: "product list \<Rightarrow> int list" where
  "numeric_ids xs =
     List.map_filter
       (\<lambda>p. case parseInt (js_string (ProductID p)) of IntFin i \<Rightarrow> Some i | _ \<Rightarrow> None) xs"

definition safe_ids :: "product list \<Rightarrow> bool" where
  "safe_ids xs =
     list_all
       (\<lambda>p. case parseInt (js_string (ProductID p)) of
               IntFin i \<Rightarrow> i < 2 ^ 53 - 1
             | IntPosInf \<Rightarrow> False
             | _ \<Rightarrow> True) xs"

section \<open>Sample data\<close>

text \<open>A record shaped like the seed data, and the application right after the
  component has loaded an array of records.\<close>

definition sample_product :: "string \<Rightarrow> string \<Rightarrow> product" where
  "sample_product sId sName =
     \<lparr>ProductID = Some sId, Name = sName, Description = ''High-performance laptop'',
      Price = JNum (Fin (2599 / 2)), Currency = ''USD'', Category = ''Electronics'',
      SupplierName = ''Dell Technologies'', InStock = True, Quantity = JNum (Fin 45),
      Rating = JNum (Fin (9 / 2)), ReleaseDate = ''2023-05-15'',
      Specifications = [(''RAM'', ''16GB DDR4'')]\<rparr>"

definition loaded_app :: "product list \<Rightarrow> app" where
  "loaded_app xs =
     \<lparr>store = xs, aProducts = [0..<length xs], previousHash = None,
      createModel = None, createSpecs = [], editModel = None, editSpecs = [],
      productIndex = None, detailModel = None, detailContext = None, detailSpecs = [],
      confirmDelete = None, listFilters = []\<rparr>"

definition typed :: "string \<Rightarrow> jsval \<Rightarrow> product \<Rightarrow> product" where
  "typed sName vPrice p = p\<lparr>Name := sName, Price := vPrice\<rparr>"

text \<open>A form input that rewrites the key.\<close>

definition rekeyed :: "string \<Rightarrow> product \<Rightarrow> product" where
  "rekeyed sId p = p\<lparr>ProductID := Some sId\<rparr>"

section \<open>Properties\<close>

subsection \<open>Numbers and strings\<close>

lemma digits_val_snoc: "digits_val (ds @ [c]) = 10 * digits_val ds + digit_val c"
  by (simp add: digits_val_def)

lemma is_digit_digit_char: "d < 10 \<Longrightarrow> is_digit (digit_char d)"
  by (simp add: is_digit_def digit_char_def)

lemma digit_val_digit_char: "d < 10 \<Longrightarrow> digit_val (digit_char d) = d"
  by (simp add: digit_val_def digit_char_def)

lemma show_nat_digits: "c \<in> set (show_nat n) \<Longrightarrow> is_digit c"
  by (induction n arbitrary: c rule: show_nat.induct) (subst (asm) show_nat.simps, auto simp: is_digit_digit_char split: if_splits)

lemma show_nat_nonempty: "show_nat n \<noteq> []"
  by (subst show_nat.simps) simp

lemma digits_val_show_nat: "digits_val (show_nat n) = n"
proof (induction n rule: show_nat.induct)
  case (1 n)
  show ?case
  proof (cases "n < 10")
    case True
    then show ?thesis by (subst show_nat.simps) (simp add: digits_val_def digit_val_digit_char)
  next
    case False
    then show ?thesis using 1
      by (subst show_nat.simps) (simp add: digits_val_snoc digit_val_digit_char)
  qed
qed

lemma is_digit_not_ws: "is_digit c \<Longrightarrow> \<not> is_ws c"
  by (auto simp: is_digit_def is_ws_def)

lemma is_digit_not_sign: "is_digit c \<Longrightarrow> c \<noteq> CHR ''-'' \<and> c \<noteq> CHR ''+''"
  by (auto simp: is_digit_def)

lemma digit_chars:
  "digit_char 0 = CHR ''0''" "digit_char 1 = CHR ''1''" "digit_char 2 = CHR ''2''"
  "digit_char 3 = CHR ''3''" "digit_char 4 = CHR ''4''" "digit_char 5 = CHR ''5''"
  "digit_char 6 = CHR ''6''" "digit_char 7 = CHR ''7''" "digit_char 8 = CHR ''8''"
  "digit_char 9 = CHR ''9''" "digit_char (Suc 0) = CHR ''1''"
  by code_simp+

text \<open>The equations that evaluate the ID generator on concrete data.\<close>

lemmas eval_ids =
  loaded_app_def sample_product_def products_def generateProductId_def js_string_def
  parseInt_def is_ws_def is_digit_def digits_val_def digit_val_def round64_def
  round64_nat_def bit_length.simps show_number_def show_int_def show_nat.simps digit_chars
  numeric_ids_def map_filter_simps safe_ids_def Let_def

lemma round64_small: "\<bar>i\<bar> < 2 ^ 53 \<Longrightarrow> round64 i = IntFin i"
  by (auto simp: round64_def round64_nat_def)

lemma parseInt_digits:
  assumes "ds \<noteq> []" "\<forall>c \<in> set ds. is_digit c"
  shows "parseInt ds = round64 (int (digits_val ds))"
proof -
  obtain c cs where ds: "ds = c # cs" using assms(1) by (cases ds) auto
  have c: "is_digit c" using assms(2) ds by simp
  have 1: "dropWhile is_ws ds = ds" using c ds is_digit_not_ws by simp
  have 2: "strip_sign ds = (1, ds)" using c ds is_digit_not_sign by simp
  have 3: "takeWhile is_digit ds = ds" using assms(2) by (simp add: takeWhile_eq_all_conv)
  show ?thesis using assms(1) by (simp add: parseInt_def 1 2 3)
qed

lemma parseInt_show_nat:
  assumes "int n < 2 ^ 53"
  shows "parseInt (show_nat n) = IntFin (int n)"
proof -
  have "parseInt (show_nat n) = round64 (int n)"
    using parseInt_digits [of "show_nat n"] show_nat_digits show_nat_nonempty
    by (simp add: digits_val_show_nat)
  then show ?thesis using assms by (simp add: round64_small)
qed

lemma toString_small:
  assumes "0 \<le> i" "i < 10 ^ 21"
  shows "toString (IntFin i) = show_int i"
proof -
  have "nat i < 10 ^ 21" using assms by (simp add: nat_less_iff)
  then show ?thesis using assms(1) by (simp add: show_number_def show_int_def)
qed

text \<open>A sum that is no double any more, and a number printed in exponential notation.\<close>

lemma round64_sample:
  "round64 (9007199254740992 + 1) = IntFin 9007199254740992
   \<and> round64 (9007199254740992 + 3) = IntFin 9007199254740996"
  by (simp add: round64_def round64_nat_def bit_length.simps Let_def)

lemma exponential_sample: "exponential 1000000000000000000000 = ''1e+21''"
proof -
  have l: "length (show_nat 1000000000000000000000) = 22"
    by (simp add: show_nat.simps)
  have c: "exp_candidates 1000000000000000000000 (Suc 0) = [(1, 22)]"
    by (simp add: exp_candidates_def l round64_nat_def bit_length.simps Let_def)
  show ?thesis
    by (simp add: exponential_def shortest.simps c show_nat.simps digit_chars)
qed

subsection \<open>The next ProductID\<close>

lemma Max_insert_max:
  fixes m i :: int
  assumes "finite S"
  shows "Max (insert (max m i) S) = Max (insert m (insert i S))"
proof (cases "S = {}")
  case True
  then show ?thesis by (simp add: max.commute)
next
  case False
  then show ?thesis using assms by (simp add: max.assoc)
qed

lemma scan_max:
  assumes "\<forall>p \<in> set xs. parseInt (js_string (ProductID p)) \<noteq> IntPosInf"
  shows "foldl (\<lambda>iMaxId product.
                  let iId = parseInt (js_string (ProductID product))
                  in if greater iId iMaxId then iId else iMaxId) (IntFin m) xs
         = IntFin (Max (insert m (set (numeric_ids xs))))"
  using assms
proof (induction xs arbitrary: m)
  case Nil
  then show ?case by (simp add: numeric_ids_def map_filter_simps)
next
  case (Cons p xs)
  have rest: "\<forall>p \<in> set xs. parseInt (js_string (ProductID p)) \<noteq> IntPosInf"
    using Cons.prems by simp
  show ?case
  proof (cases "parseInt (js_string (ProductID p))")
    case IntNaN
    then show ?thesis using Cons.IH [OF rest] by (simp add: numeric_ids_def map_filter_simps)
  next
    case (IntFin i)
    have step: "(if m < i then IntFin i else IntFin m) = IntFin (max m i)"
      by (simp add: max_def)
    have ids: "numeric_ids (p # xs) = i # numeric_ids xs"
      using IntFin by (simp add: numeric_ids_def map_filter_simps)
    show ?thesis
      using Cons.IH [OF rest, of "max m i"] Max_insert_max [of "set (numeric_ids xs)" m i]
      by (simp add: IntFin step ids)
  next
    case IntPosInf
    then show ?thesis using Cons.prems by simp
  next
    case IntNegInf
    then show ?thesis using Cons.IH [OF rest] by (simp add: numeric_ids_def map_filter_simps)
  qed
qed

lemma safe_ids_finite:
  assumes "safe_ids xs"
  shows "\<forall>p \<in> set xs. parseInt (js_string (ProductID p)) \<noteq> IntPosInf"
  using assms by (auto simp: safe_ids_def list_all_iff)

lemma numeric_ids_mem:
  "i \<in> set (numeric_ids xs)
   \<longleftrightarrow> (\<exists>p \<in> set xs. parseInt (js_string (ProductID p)) = IntFin i)"
  by (induction xs) (auto simp: numeric_ids_def map_filter_simps split: jsint.splits)

lemma safe_ids_bound:
  assumes "safe_ids xs"
  shows "0 \<le> Max (insert 0 (set (numeric_ids xs)))
         \<and> Max (insert 0 (set (numeric_ids xs))) < 2 ^ 53 - 1"
proof -
  have bound: "i < 2 ^ 53 - 1" if "i \<in> set (numeric_ids xs)" for i
  proof -
    have "\<exists>p \<in> set xs. parseInt (js_string (ProductID p)) = IntFin i"
      using that by (simp only: numeric_ids_mem)
    then obtain p where p: "p \<in> set xs" "parseInt (js_string (ProductID p)) = IntFin i" ..
    have "case parseInt (js_string (ProductID p)) of
            IntFin i \<Rightarrow> i < 2 ^ 53 - 1 | IntPosInf \<Rightarrow> False | _ \<Rightarrow> True"
      using assms p(1) by (simp add: safe_ids_def list_all_iff)
    then show ?thesis by (simp only: p(2) jsint.case)
  qed
  have fin: "finite (insert 0 (set (numeric_ids xs)))" and ne: "insert 0 (set (numeric_ids xs)) \<noteq> {}"
    by simp_all
  have "Max (insert 0 (set (numeric_ids xs))) \<in> insert 0 (set (numeric_ids xs))"
    using fin ne by (rule Max_in)
  then have lt: "Max (insert 0 (set (numeric_ids xs))) < 2 ^ 53 - 1"
    using bound by (elim insertE) simp_all
  have "0 \<le> Max (insert 0 (set (numeric_ids xs)))"
    using fin by (rule Max_ge) simp
  then show ?thesis using lt by (rule conjI)
qed

lemma generateProductId_safe:
  assumes "safe_ids (products st)"
  shows "generateProductId st = show_int (Max (insert 0 (set (numeric_ids (products st)))) + 1)"
proof -
  define m where "m = Max (insert 0 (set (numeric_ids (products st))))"
  have b: "0 \<le> m" "m < 2 ^ 53 - 1"
    using safe_ids_bound [OF assms] by (simp_all only: m_def)
  have b1: "\<bar>m + 1\<bar> < 2 ^ 53" using b by linarith
  have b2: "0 \<le> m + 1" "m + 1 < 10 ^ 21" using b by simp_all
  have r: "round64 (m + 1) = IntFin (m + 1)"
    using b1 by (rule round64_small)
  have s: "toString (IntFin (m + 1)) = show_int (m + 1)"
    using b2 by (rule toString_small)
  have "generateProductId st = toString (add_one (IntFin m))"
    by (simp add: generateProductId_def scan_max [OF safe_ids_finite [OF assms]] m_def)
  then have "generateProductId st = show_int (m + 1)" by (simp only: add_one.simps r s)
  then show ?thesis by (simp only: m_def)
qed

lemma generateProductId_cong:
  "products st' = products st \<Longrightarrow> generateProductId st' = generateProductId st"
  by (simp add: generateProductId_def)

lemma Max_positive_only:
  fixes S :: "int set"
  assumes "finite S"
  shows "Max (insert 0 S) = Max (insert 0 {i \<in> S. 0 < i})"
proof (rule antisym)
  show "Max (insert 0 S) \<le> Max (insert 0 {i \<in> S. 0 < i})"
    using assms by (subst Max_le_iff) (auto simp: Max_ge_iff)
  show "Max (insert 0 {i \<in> S. 0 < i}) \<le> Max (insert 0 S)"
    using assms by (subst Max_le_iff) (auto simp: Max_ge_iff)
qed

text \<open>
  Claim C10, as amended.  For the empty products array \<open>_generateProductId\<close> returns
  \<open>"1"\<close>.  For every products array whose numeric IDs are all below \<open>2 ^ 53 - 1\<close> it
  returns the decimal string of 1 plus the maximum of 0 and the numbers that \<open>parseInt\<close>
  reads from the \<open>ProductID\<close> values; a record whose \<open>ProductID\<close> is not a number above 0
  has no part in the result.
\<close>

theorem generateProductId_next:
  "(safe_ids (products st) \<longrightarrow>
      generateProductId st = show_int (1 + Max (insert 0 (set (numeric_ids (products st)))))
      \<and> generateProductId st
          = show_int (1 + Max (insert 0 {i \<in> set (numeric_ids (products st)). 0 < i})))
   \<and> (products st = [] \<longrightarrow> generateProductId st = ''1'')"
proof -
  have a: "generateProductId st = show_int (1 + Max (insert 0 (set (numeric_ids (products st)))))"
    if "safe_ids (products st)"
    using generateProductId_safe [OF that] by (simp add: add.commute)
  have b: "Max (insert 0 (set (numeric_ids (products st))))
           = Max (insert 0 {i \<in> set (numeric_ids (products st)). 0 < i})"
    by (rule Max_positive_only) simp
  have c: "products st = [] \<Longrightarrow> generateProductId st = ''1''"
    by (simp add: generateProductId_def round64_small show_number_def show_nat.simps digit_chars)
  show ?thesis using a b c by simp
qed

text \<open>
  Claim C10 as first stated speaks of every products array.  With the single ID
  \<open>"9007199254740992"\<close>, which is \<open>2 ^ 53\<close>, the sum \<open>iMaxId + 1\<close> is rounded back to
  \<open>2 ^ 53\<close> and the result is \<open>"9007199254740992"\<close> again, not \<open>"9007199254740993"\<close>.  With
  the single ID \<open>"1000000000000000000000"\<close> the result is \<open>"1e+21"\<close>.
\<close>

theorem generateProductId_next_counterexample:
  "numeric_ids (products (loaded_app [sample_product ''9007199254740992'' ''Laptop'']))
     = [9007199254740992]
   \<and> show_int (1 + Max (insert 0 (set [9007199254740992]))) = ''9007199254740993''
   \<and> generateProductId (loaded_app [sample_product ''9007199254740992'' ''Laptop''])
       = ''9007199254740992''
   \<and> generateProductId (loaded_app [sample_product ''9007199254740992'' ''Laptop''])
       \<noteq> show_int (1 + Max (insert 0 (set (numeric_ids
             (products (loaded_app [sample_product ''9007199254740992'' ''Laptop''])))))) 
   \<and> generateProductId (loaded_app [sample_product ''1000000000000000000000'' ''Laptop''])
       = ''1e+21''"
  by (simp add: eval_ids exponential_sample)

theorem generateProductId_next_witness:
  "safe_ids (products (loaded_app [sample_product ''1'' ''Laptop'', sample_product ''7'' ''Mouse'']))
   \<and> generateProductId (loaded_app [sample_product ''1'' ''Laptop'', sample_product ''7'' ''Mouse''])
       = ''8''
   \<and> products (loaded_app []) = []
   \<and> generateProductId (loaded_app []) = ''1''"
proof -
  let ?st = "loaded_app [sample_product ''1'' ''Laptop'', sample_product ''7'' ''Mouse'']"
  have h1: "safe_ids (products ?st)" by (simp add: eval_ids)
  have h2: "products (loaded_app []) = []" by code_simp
  have ids: "numeric_ids (products ?st) = [1, 7]" by (simp add: eval_ids)
  have str: "show_int 8 = ''8''" by (simp add: show_int_def show_nat.simps digit_chars)
  have "generateProductId ?st = show_int (1 + Max (insert 0 (set (numeric_ids (products ?st)))))"
    using generateProductId_next [of ?st] h1 by blast
  then have a: "generateProductId ?st = ''8''" by (simp add: ids str)
  have b: "generateProductId (loaded_app []) = ''1''"
    using generateProductId_next [of "loaded_app []"] h2 by blast
  show ?thesis using h1 h2 a b by (intro conjI)
qed

subsection \<open>Create\<close>

lemma products_nth_append:
  assumes "list_all (\<lambda>r. r < length xs) rs"
  shows "map ((!) (xs @ ys)) rs = map ((!) xs) rs"
  using assms by (induction rs) (auto simp: nth_append)

lemma create_flow_result:
  assumes wf: "refs_ok st" and ok: "\<not> required_missing (f (new_product today))"
  shows "create_flow today f rows st =
           ([MessageToast ''Product created successfully'', NavTo RMaster],
            st\<lparr>store := store st @
                  [(f (new_product today))
                     \<lparr>Specifications := collect_specs rows,
                      ProductID := Some (generateProductId st)\<rparr>],
               aProducts := aProducts st @ [length (store st)],
               createModel := Some (length (store st)),
               createSpecs := rows\<rparr>)"
proof -
  let ?n = "length (store st)"
  let ?a = "Create_onCreateMatched today st"
  let ?b = "Create_input f rows ?a"
  have refs: "list_all (\<lambda>r. r < ?n) (aProducts st)" using wf by (simp add: refs_ok_def)
  have b: "?b = st\<lparr>store := store st @ [f (new_product today)],
                   createModel := Some ?n, createSpecs := rows\<rparr>"
    by (simp add: Create_input_def Create_onCreateMatched_def form_input_def)
  show ?thesis
    unfolding create_flow_def b
    using ok refs
    by (simp add: Create_onSavePress_def Let_def generateProductId_def products_def
          products_nth_append)
qed

lemma create_flow_products:
  assumes "refs_ok st" and "\<not> required_missing (f (new_product today))"
  shows "products (snd (create_flow today f rows st))
         = products st @ [(f (new_product today))
                            \<lparr>Specifications := collect_specs rows,
                             ProductID := Some (generateProductId st)\<rparr>]"
proof -
  have refs: "list_all (\<lambda>r. r < length (store st)) (aProducts st)"
    using assms(1) by (simp add: refs_ok_def)
  show ?thesis
    using refs
    by (simp add: create_flow_result [where st=st and f=f and today=today and rows=rows, OF assms]
          products_def products_nth_append)
qed

text \<open>
  Claim C1, as amended.  For a products array whose numeric IDs are all below
  \<open>2 ^ 53 - 1\<close>, a save in the Create flow that passes the validation appends exactly
  one record: the array grows by one, its last element is the new product, and the
  records that were there are still there, unchanged and in place.  The new \<open>ProductID\<close>
  is one more than the maximum of 0 and the numeric IDs of the array; that is one more
  than the largest numeric ID as soon as one of them is not negative.
\<close>

theorem create_appends_next_id:
  assumes "refs_ok st" and "safe_ids (products st)"
    and "\<not> required_missing (f (new_product today))"
  shows "let st' = snd (create_flow today f rows st);
             iNext = Max (insert 0 (set (numeric_ids (products st)))) + 1;
             p = (f (new_product today))
                   \<lparr>Specifications := collect_specs rows, ProductID := Some (show_int iNext)\<rparr>
         in products st' = products st @ [p]
            \<and> length (products st') = length (products st) + 1
            \<and> last (products st') = p
            \<and> take (length (products st)) (products st') = products st
            \<and> ((\<exists>i \<in> set (numeric_ids (products st)). 0 \<le> i)
                 \<longrightarrow> iNext = Max (set (numeric_ids (products st))) + 1)"
proof -
  have a: "products (snd (create_flow today f rows st))
           = products st @ [(f (new_product today))
                   \<lparr>Specifications := collect_specs rows,
                    ProductID := Some (show_int (Max (insert 0 (set (numeric_ids (products st)))) + 1))\<rparr>]"
    using create_flow_products [where st=st and f=f and today=today and rows=rows, OF assms(1,3)]
    by (simp only: generateProductId_safe [OF assms(2)])
  have b: "\<exists>i \<in> set (numeric_ids (products st)). 0 \<le> i \<Longrightarrow>
           Max (insert 0 (set (numeric_ids (products st)))) = Max (set (numeric_ids (products st)))"
  proof -
    assume "\<exists>i \<in> set (numeric_ids (products st)). 0 \<le> i"
    then obtain i where i: "i \<in> set (numeric_ids (products st))" "0 \<le> i" by blast
    then have ne: "set (numeric_ids (products st)) \<noteq> {}" by auto
    have "0 \<le> Max (set (numeric_ids (products st)))"
      using i by (meson List.finite_set Max_ge order_trans)
    then show ?thesis using ne by (simp add: max_def)
  qed
  show ?thesis using a b by (simp add: Let_def)
qed

text \<open>
  Claim C1 as first stated asks for one more than the largest numeric ID whenever the
  array is not empty and every \<open>ProductID\<close> parses.  With the single ID \<open>"-5"\<close> the new
  product gets \<open>"1"\<close>, not \<open>"-4"\<close>: the scan starts from 0.  With the single ID
  \<open>"9007199254740992"\<close> the new product gets the same ID again, since \<open>2 ^ 53 + 1\<close> is no
  double.
\<close>

theorem create_next_id_counterexample:
  "products (loaded_app [sample_product ''-5'' ''Laptop'']) \<noteq> []
   \<and> list_all (\<lambda>p. parseInt (js_string (ProductID p)) \<noteq> IntNaN)
        (products (loaded_app [sample_product ''-5'' ''Laptop'']))
   \<and> show_int (Max (set (numeric_ids (products (loaded_app [sample_product ''-5'' ''Laptop''])))) + 1)
       = ''-4''
   \<and> map ProductID (products (snd (create_flow ''2024-01-01'' (typed ''Phone'' (JStr ''499'')) []
         (loaded_app [sample_product ''-5'' ''Laptop'']))))
       = [Some ''-5'', Some ''1'']
   \<and> list_all (\<lambda>p. parseInt (js_string (ProductID p)) \<noteq> IntNaN)
        (products (loaded_app [sample_product ''9007199254740992'' ''Laptop'']))
   \<and> show_int (Max (set (numeric_ids
         (products (loaded_app [sample_product ''9007199254740992'' ''Laptop''])))) + 1)
       = ''9007199254740993''
   \<and> map ProductID (products (snd (create_flow ''2024-01-01'' (typed ''Phone'' (JStr ''499'')) []
         (loaded_app [sample_product ''9007199254740992'' ''Laptop'']))))
       = [Some ''9007199254740992'', Some ''9007199254740992'']
   \<and> last (map ProductID (products (snd (create_flow ''2024-01-01'' (typed ''Phone'' (JStr ''499'')) []
         (loaded_app [sample_product ''-5'' ''Laptop''])))))
       \<noteq> Some (show_int (Max (set (numeric_ids
             (products (loaded_app [sample_product ''-5'' ''Laptop''])))) + 1))
   \<and> last (map ProductID (products (snd (create_flow ''2024-01-01'' (typed ''Phone'' (JStr ''499'')) []
         (loaded_app [sample_product ''9007199254740992'' ''Laptop''])))))
       \<noteq> Some (show_int (Max (set (numeric_ids
             (products (loaded_app [sample_product ''9007199254740992'' ''Laptop''])))) + 1))"
proof -
  let ?f = "typed ''Phone'' (JStr ''499'')"
  have ok: "\<not> required_missing (?f (new_product ''2024-01-01''))" by code_simp
  have r: "refs_ok (loaded_app xs)" for xs
    by (simp add: refs_ok_def loaded_app_def ref_ok_def list_all_iff)
  note p = create_flow_products [where f="?f" and today="''2024-01-01''" and rows="[]", OF r ok]
  have g1: "generateProductId (loaded_app [sample_product ''-5'' ''Laptop'']) = ''1''"
    by (simp add: eval_ids)
  have g2: "generateProductId (loaded_app [sample_product ''9007199254740992'' ''Laptop''])
            = ''9007199254740992''"
    by (simp add: eval_ids)
  have i1: "numeric_ids (products (loaded_app [sample_product ''-5'' ''Laptop''])) = [- 5]"
    by (simp add: eval_ids)
  have i2: "numeric_ids (products (loaded_app [sample_product ''9007199254740992'' ''Laptop'']))
            = [9007199254740992]"
    by (simp add: eval_ids)
  have s1: "show_int (- 4) = ''-4''" "show_int 9007199254740993 = ''9007199254740993''"
    by (simp_all add: show_int_def show_nat.simps digit_chars)
  have n1: "list_all (\<lambda>p. parseInt (js_string (ProductID p)) \<noteq> IntNaN)
        (products (loaded_app [sample_product ''-5'' ''Laptop'']))"
    by (simp add: eval_ids)
  have n2: "list_all (\<lambda>p. parseInt (js_string (ProductID p)) \<noteq> IntNaN)
        (products (loaded_app [sample_product ''9007199254740992'' ''Laptop'']))"
    by (simp add: eval_ids)
  have x: "map ProductID (products (loaded_app [sample_product a b])) = [Some a]" for a b
    by (simp add: loaded_app_def products_def sample_product_def)
  have e: "products (loaded_app [sample_product ''-5'' ''Laptop'']) \<noteq> []"
    by (simp add: loaded_app_def products_def)
  have l1: "map ProductID (products (snd (create_flow ''2024-01-01'' ?f []
              (loaded_app [sample_product ''-5'' ''Laptop'']))))
            = [Some ''-5'', Some ''1'']"
    by (simp add: p g1 x)
  have l2: "map ProductID (products (snd (create_flow ''2024-01-01'' ?f []
              (loaded_app [sample_product ''9007199254740992'' ''Laptop'']))))
            = [Some ''9007199254740992'', Some ''9007199254740992'']"
    by (simp add: p g2 x)
  show ?thesis
    using e n1 n2 by (simp add: l1 l2 i1 i2 s1)
qed

theorem create_appends_next_id_witness:
  "refs_ok (loaded_app [sample_product ''1'' ''Laptop'', sample_product ''7'' ''Mouse''])
   \<and> safe_ids (products (loaded_app [sample_product ''1'' ''Laptop'', sample_product ''7'' ''Mouse'']))
   \<and> \<not> required_missing (typed ''Phone'' (JStr ''499'') (new_product ''2024-01-01''))
   \<and> length (products (snd (create_flow ''2024-01-01'' (typed ''Phone'' (JStr ''499'')) []
         (loaded_app [sample_product ''1'' ''Laptop'', sample_product ''7'' ''Mouse''])))) = 3
   \<and> ProductID (last (products (snd (create_flow ''2024-01-01'' (typed ''Phone'' (JStr ''499'')) []
         (loaded_app [sample_product ''1'' ''Laptop'', sample_product ''7'' ''Mouse'']))))) = Some ''8''"
proof -
  let ?st = "loaded_app [sample_product ''1'' ''Laptop'', sample_product ''7'' ''Mouse'']"
  have h1: "refs_ok ?st" by code_simp
  have h2: "safe_ids (products ?st)" by (simp add: eval_ids)
  have h3: "\<not> required_missing (typed ''Phone'' (JStr ''499'') (new_product ''2024-01-01''))"
    by code_simp
  have ids: "numeric_ids (products ?st) = [1, 7]" by (simp add: eval_ids)
  have len: "length (products ?st) = 2" by code_simp
  have str: "show_int 8 = ''8''" by (simp add: show_int_def show_nat.simps digit_chars)
  note t = create_appends_next_id [where st="?st" and f="typed ''Phone'' (JStr ''499'')"
      and today="''2024-01-01''" and rows="[]", OF h1 h2 h3, unfolded Let_def]
  from t have "length (products (snd (create_flow ''2024-01-01'' (typed ''Phone'' (JStr ''499'')) [] ?st))) = 3"
    by (simp add: len)
  moreover from t have "ProductID (last (products (snd (create_flow ''2024-01-01'' (typed ''Phone'' (JStr ''499'')) [] ?st)))) = Some ''8''"
    by (simp add: ids str)
  ultimately show ?thesis using h1 h2 h3 by simp
qed

subsection \<open>Scanning the array\<close>

lemma find_index_None: "find_index P xs = None \<longleftrightarrow> (\<forall>x \<in> set xs. \<not> P x)"
  by (induction xs) auto

lemma find_index_Some:
  "find_index P xs = Some i \<Longrightarrow> i < length xs \<and> P (xs ! i) \<and> (\<forall>j < i. \<not> P (xs ! j))"
proof (induction xs arbitrary: i)
  case Nil
  then show ?case by simp
next
  case (Cons x xs)
  show ?case
  proof (cases "P x")
    case True
    then show ?thesis using Cons.prems by simp
  next
    case False
    then obtain k where k: "find_index P xs = Some k" "i = Suc k"
      using Cons.prems by auto
    have "k < length xs \<and> P (xs ! k) \<and> (\<forall>j < k. \<not> P (xs ! j))"
      using Cons.IH [OF k(1)] .
    then show ?thesis using False k(2) by (auto simp: less_Suc_eq_0_disj)
  qed
qed

lemma find_index_map: "find_index (\<lambda>r. P (g r)) rs = find_index P (map g rs)"
  by (induction rs) auto

lemma find_index_products:
  "find_index (\<lambda>r. ProductID (store st ! r) = v) (aProducts st)
   = find_index (\<lambda>p. ProductID p = v) (products st)"
  using find_index_map [of "\<lambda>p. ProductID p = v" "\<lambda>r. store st ! r" "aProducts st"]
  by (simp add: products_def)

lemma find_index_present:
  "(\<exists>x \<in> set xs. P x) \<Longrightarrow> \<exists>i. find_index P xs = Some i"
  using find_index_None [of P xs] by (cases "find_index P xs") auto

subsection \<open>References stay valid\<close>

text \<open>No handler leaves a reference behind that names no object, so \<open>refs_ok\<close> holds in
  every state the application reaches from loaded data.\<close>

lemma refs_ok_loaded: "refs_ok (loaded_app xs)"
  by (simp add: refs_ok_def loaded_app_def ref_ok_def list_all_iff)

lemma refs_ok_form_input: "refs_ok st \<Longrightarrow> refs_ok (form_input f m st)"
  by (cases m) (auto simp: refs_ok_def form_input_def ref_ok_def split: option.splits)

lemma refs_ok_Create_onCreateMatched: "refs_ok st \<Longrightarrow> refs_ok (Create_onCreateMatched today st)"
  by (auto simp: refs_ok_def Create_onCreateMatched_def ref_ok_def list_all_iff split: option.splits)

lemma refs_ok_Create_input: "refs_ok st \<Longrightarrow> refs_ok (Create_input f rows st)"
  using refs_ok_form_input [of st f "createModel st"]
  by (auto simp: Create_input_def refs_ok_def ref_ok_def split: option.splits)

lemma refs_ok_Create_onSavePress: "refs_ok st \<Longrightarrow> refs_ok (snd (Create_onSavePress st))"
  by (auto simp: refs_ok_def Create_onSavePress_def ref_ok_def Let_def list_all_iff split: option.splits)

lemma refs_ok_Edit_onEditMatched: "refs_ok st \<Longrightarrow> refs_ok (snd (Edit_onEditMatched sProductId st))"
  by (auto simp: refs_ok_def Edit_onEditMatched_def ref_ok_def Let_def list_all_iff split: option.splits)

lemma refs_ok_Edit_input: "refs_ok st \<Longrightarrow> refs_ok (Edit_input f rows st)"
  using refs_ok_form_input [of st f "editModel st"]
  by (auto simp: Edit_input_def refs_ok_def ref_ok_def split: option.splits)

lemma in_set_update: "r \<in> set (xs[i := v]) \<Longrightarrow> r = v \<or> r \<in> set xs"
  using set_update_subset_insert [of xs i v] by auto

lemma refs_ok_Edit_onSavePress:
  "refs_ok st \<Longrightarrow> Edit_onSavePress st = Some (effects, st') \<Longrightarrow> refs_ok st'"
  by (auto simp: refs_ok_def Edit_onSavePress_def ref_ok_def Let_def list_all_iff array_set_def
        split: option.splits if_splits dest!: in_set_update)

lemma refs_ok_Detail_onProductMatched:
  "refs_ok st \<Longrightarrow> refs_ok (snd (Detail_onProductMatched sProductId st))"
  using find_index_Some [of "\<lambda>r. ProductID (store st ! r) = Some sProductId" "aProducts st"]
  by (auto simp: refs_ok_def Detail_onProductMatched_def ref_ok_def list_all_iff split: option.splits)

lemma refs_ok_Detail_onDeletePress: "refs_ok st \<Longrightarrow> refs_ok (snd (Detail_onDeletePress st))"
  by (auto simp: refs_ok_def Detail_onDeletePress_def ref_ok_def split: option.splits)

lemma refs_ok_Detail_onClose: "refs_ok st \<Longrightarrow> refs_ok (snd (Detail_onClose oAction st))"
  by (auto simp: refs_ok_def Detail_onClose_def ref_ok_def list_all_iff splice1_def
        split: option.splits dest: in_set_takeD in_set_dropD)

lemma refs_ok_Master_onSearch: "refs_ok st \<Longrightarrow> refs_ok (Master_onSearch oEvent st)"
  by (auto simp: refs_ok_def Master_onSearch_def ref_ok_def split: option.splits)

subsection \<open>Records that are not found\<close>

text \<open>
  Claim C5.  When no record of the array has the requested \<open>ProductID\<close>, the scan of the
  Detail and of the Edit route handler finds nothing; each handler shows the toast
  "Product not found" and then does what its \<open>onNavBack\<close> does (back in the history, or
  a replacing navigation when there is none).  No product is bound and the application
  state, the array and its records included, is left exactly as it was.
\<close>

theorem not_found_falls_back:
  assumes "Some sProductId \<notin> set (map ProductID (products st))"
  shows "find_index (\<lambda>p. ProductID p = Some sProductId) (products st) = None
         \<and> Detail_onProductMatched sProductId st
             = (MessageToast ''Product not found'' # Detail_onNavBack st, st)
         \<and> Edit_onEditMatched sProductId st
             = (MessageToast ''Product not found'' # Edit_onNavBack st, st)
         \<and> Detail_onNavBack st \<in> {[HistoryGoBack], [NavToReplace RMaster]}
         \<and> Edit_onNavBack st
             \<in> {[HistoryGoBack], [NavToReplace (RDetail (model_ProductID st (editModel st)))]}"
proof -
  have n: "find_index (\<lambda>p. ProductID p = Some sProductId) (products st) = None"
    using assms by (force simp: find_index_None)
  have d: "Detail_onProductMatched sProductId st
             = (MessageToast ''Product not found'' # Detail_onNavBack st, st)"
    by (simp add: Detail_onProductMatched_def find_index_products n)
  have e: "Edit_onEditMatched sProductId st
             = (MessageToast ''Product not found'' # Edit_onNavBack st, st)"
    by (simp add: Edit_onEditMatched_def find_index_products n)
  show ?thesis using n d e by (simp add: Detail_onNavBack_def Edit_onNavBack_def)
qed

theorem not_found_falls_back_witness:
  "Some ''9'' \<notin> set (map ProductID (products (loaded_app [sample_product ''1'' ''Laptop''])))
   \<and> Detail_onProductMatched ''9'' (loaded_app [sample_product ''1'' ''Laptop''])
       = ([MessageToast ''Product not found'', NavToReplace RMaster],
          loaded_app [sample_product ''1'' ''Laptop''])
   \<and> Edit_onEditMatched ''9'' (loaded_app [sample_product ''1'' ''Laptop''])
       = ([MessageToast ''Product not found'', NavToReplace (RDetail None)],
          loaded_app [sample_product ''1'' ''Laptop''])"
proof -
  let ?st = "loaded_app [sample_product ''1'' ''Laptop'']"
  have h: "Some ''9'' \<notin> set (map ProductID (products ?st))" by code_simp
  have d: "Detail_onNavBack ?st = [NavToReplace RMaster]" by code_simp
  have e: "Edit_onNavBack ?st = [NavToReplace (RDetail None)]" by code_simp
  show ?thesis using not_found_falls_back [OF h] h by (simp add: d e)
qed

subsection \<open>The confirm dialog\<close>

text \<open>
  Claim C8.  Pressing Delete opens one confirm dialog and changes no record.  When the
  dialog closes with any action other than OK, nothing is shown, nothing is navigated
  to, and the products array is exactly as before; so a change of the array by the
  Delete flow means the dialog was closed with OK.
\<close>

theorem delete_needs_ok:
  "products (snd (Detail_onDeletePress st)) = products st
   \<and> (\<exists>sText. fst (Detail_onDeletePress st) = [MessageBoxConfirm sText])
   \<and> (oAction \<noteq> OK \<longrightarrow>
        Detail_onClose oAction st = ([], st\<lparr>confirmDelete := None\<rparr>)
        \<and> products (snd (Detail_onClose oAction st)) = products st
        \<and> products (snd (delete_flow sProductId oAction st)) = products st
        \<and> NavTo RMaster \<notin> set (fst (delete_flow sProductId oAction st)))
   \<and> (products (snd (Detail_onClose oAction st)) \<noteq> products st \<longrightarrow> oAction = OK)"
proof -
  have a: "products (snd (Detail_onDeletePress st)) = products st"
    by (simp add: Detail_onDeletePress_def products_def)
  have b: "\<exists>sText. fst (Detail_onDeletePress st) = [MessageBoxConfirm sText]"
    by (simp add: Detail_onDeletePress_def)
  have c: "Detail_onClose oAction s = ([], s\<lparr>confirmDelete := None\<rparr>)" if "oAction \<noteq> OK" for s
    using that by (cases "confirmDelete s") (simp_all add: Detail_onClose_def)
  have d: "products (snd (Detail_onProductMatched sProductId st)) = products st"
    by (simp add: Detail_onProductMatched_def products_def split: option.split)
  have e: "products (snd (Detail_onDeletePress s)) = products s" for s
    by (simp add: Detail_onDeletePress_def products_def)
  have f: "products (s\<lparr>confirmDelete := None\<rparr>) = products s" for s
    by (simp add: products_def)
  have g: "products (snd (Detail_onClose oAction s)) = products s" if "oAction \<noteq> OK" for s
    using that by (simp add: c f)
  have h: "products (snd (delete_flow sProductId oAction st)) = products st
           \<and> NavTo RMaster \<notin> set (fst (delete_flow sProductId oAction st))" if "oAction \<noteq> OK"
    using that by (simp add: delete_flow_def c f e d)
  show ?thesis using a b c g h by blast
qed

theorem delete_needs_ok_witness:
  "CANCEL \<noteq> OK
   \<and> delete_flow ''1'' CANCEL (loaded_app [sample_product ''1'' ''Laptop''])
       = ([], (loaded_app [sample_product ''1'' ''Laptop''])
                \<lparr>detailModel := Some 0, detailContext := Some 0,
                 detailSpecs := [(''RAM'', ''16GB DDR4'')]\<rparr>)
   \<and> products (snd (delete_flow ''1'' CANCEL (loaded_app [sample_product ''1'' ''Laptop''])))
       = products (loaded_app [sample_product ''1'' ''Laptop''])"
proof -
  have h: "CANCEL \<noteq> OK" by simp
  have v: "delete_flow ''1'' CANCEL (loaded_app [sample_product ''1'' ''Laptop''])
       = ([], (loaded_app [sample_product ''1'' ''Laptop''])
                \<lparr>detailModel := Some 0, detailContext := Some 0,
                 detailSpecs := [(''RAM'', ''16GB DDR4'')]\<rparr>)" by code_simp
  show ?thesis
    using delete_needs_ok [of "loaded_app [sample_product ''1'' ''Laptop'']" CANCEL "''1''"] h v
    by blast
qed

subsection \<open>Delete\<close>

lemma products_nth: "i < length (aProducts st) \<Longrightarrow> products st ! i = store st ! (aProducts st ! i)"
  by (simp add: products_def)

lemma length_products: "length (products st) = length (aProducts st)"
  by (simp add: products_def)

lemma delete_flow_OK:
  assumes "find_index (\<lambda>p. ProductID p = Some sProductId) (products st) = Some i"
  shows "delete_flow sProductId OK st =
           ([MessageToast ''Product deleted successfully'', NavTo RMaster],
            st\<lparr>detailModel := Some (aProducts st ! i), detailContext := Some i,
               detailSpecs := Specifications (store st ! (aProducts st ! i)),
               aProducts := splice1 i (aProducts st), confirmDelete := None\<rparr>)"
proof -
  have i: "i < length (aProducts st)" "ProductID (products st ! i) = Some sProductId"
    using find_index_Some [OF assms] by (simp_all add: length_products)
  have id: "ProductID (store st ! (aProducts st ! i)) = Some sProductId"
    using i by (simp add: products_nth)
  have m: "Detail_onProductMatched sProductId st =
             ([], st\<lparr>detailModel := Some (aProducts st ! i), detailContext := Some i,
                     detailSpecs := Specifications (store st ! (aProducts st ! i))\<rparr>)"
    by (simp add: Detail_onProductMatched_def find_index_products assms)
  have f: "find_index (\<lambda>r. ProductID (store st ! r) = Some sProductId) (aProducts st) = Some i"
    by (simp add: find_index_products assms)
  show ?thesis
    by (simp add: delete_flow_def m Detail_onDeletePress_def model_ProductID_def id
          Detail_onClose_def f)
qed

text \<open>
  Claim C2.  When the requested \<open>ProductID\<close> is in the array, the confirmed Delete flow
  removes the first record with that ID and nothing else: the array splits into the
  records before it, the record, and the records after it, and the result is the two
  parts joined, one element shorter, every other record unchanged and in its order.
  With unique IDs no record with that ID is left.
\<close>

theorem delete_removes_first_match:
  assumes "Some sProductId \<in> set (map ProductID (products st))"
  shows "\<exists>pre p post.
           products st = pre @ p # post
           \<and> ProductID p = Some sProductId
           \<and> Some sProductId \<notin> set (map ProductID pre)
           \<and> products (snd (delete_flow sProductId OK st)) = pre @ post
           \<and> store (snd (delete_flow sProductId OK st)) = store st
           \<and> length (products (snd (delete_flow sProductId OK st))) = length (products st) - 1
           \<and> (distinct (map ProductID (products st))
                \<longrightarrow> Some sProductId
                      \<notin> set (map ProductID (products (snd (delete_flow sProductId OK st)))))"
proof -
  let ?P = "\<lambda>p. ProductID p = Some sProductId"
  let ?xs = "products st"
  have "\<exists>x \<in> set ?xs. ?P x" using assms by auto
  then obtain i where fi: "find_index ?P ?xs = Some i"
    using find_index_present [of ?xs ?P] by blast
  have i: "i < length ?xs" "?P (?xs ! i)" "\<forall>j < i. \<not> ?P (?xs ! j)"
    using find_index_Some [OF fi] by auto
  let ?pre = "take i ?xs" and ?post = "drop (Suc i) ?xs"
  have dec: "?xs = ?pre @ ?xs ! i # ?post"
    using i(1) by (simp add: id_take_nth_drop [symmetric])
  have pre: "Some sProductId \<notin> set (map ProductID ?pre)"
  proof
    assume "Some sProductId \<in> set (map ProductID ?pre)"
    then obtain q where q: "q \<in> set ?pre" "ProductID q = Some sProductId" by auto
    then obtain j where j: "j < length ?pre" "?pre ! j = q" by (auto simp: in_set_conv_nth)
    then have "j < i" "?xs ! j = q" by simp_all
    then show False using i(3) q(2) by blast
  qed
  have res: "products (snd (delete_flow sProductId OK st)) = ?pre @ ?post"
    by (simp add: delete_flow_OK [OF fi] products_def splice1_def take_map drop_map)
  have st: "store (snd (delete_flow sProductId OK st)) = store st"
    by (simp add: delete_flow_OK [OF fi])
  have len: "length (?pre @ ?post) = length ?xs - 1" using i(1) by auto
  have gone: "Some sProductId \<notin> set (map ProductID (?pre @ ?post))"
    if d: "distinct (map ProductID ?xs)"
  proof -
    have "distinct (map ProductID ?pre @ ProductID (?xs ! i) # map ProductID ?post)"
      using d dec by (metis list.simps(9) map_append)
    then show ?thesis using i(2) pre by auto
  qed
  show ?thesis
    using dec i(2) pre res st len gone
    by (intro exI [of _ ?pre] exI [of _ "?xs ! i"] exI [of _ ?post]) (simp only: res, blast)
qed

theorem delete_removes_first_match_witness:
  "Some ''1'' \<in> set (map ProductID (products (loaded_app
       [sample_product ''3'' ''Desk'', sample_product ''1'' ''Laptop'', sample_product ''7'' ''Mouse''])))
   \<and> products (snd (delete_flow ''1'' OK (loaded_app
       [sample_product ''3'' ''Desk'', sample_product ''1'' ''Laptop'', sample_product ''7'' ''Mouse''])))
     = [sample_product ''3'' ''Desk'', sample_product ''7'' ''Mouse'']"
proof -
  let ?st = "loaded_app
       [sample_product ''3'' ''Desk'', sample_product ''1'' ''Laptop'', sample_product ''7'' ''Mouse'']"
  have h: "Some ''1'' \<in> set (map ProductID (products ?st))" by code_simp
  have xs: "products ?st
     = [sample_product ''3'' ''Desk'', sample_product ''1'' ''Laptop'', sample_product ''7'' ''Mouse'']"
    by code_simp
  have ids: "ProductID (sample_product a b) = Some a" for a b
    by (simp add: sample_product_def)
  obtain pre p post where d: "products ?st = pre @ p # post" "ProductID p = Some ''1''"
     "Some ''1'' \<notin> set (map ProductID pre)"
     "products (snd (delete_flow ''1'' OK ?st)) = pre @ post"
    using delete_removes_first_match [OF h] by blast
  have "pre = [sample_product ''3'' ''Desk''] \<and> post = [sample_product ''7'' ''Mouse'']"
    using d(1,2,3) unfolding xs
    by (auto simp: append_eq_Cons_conv Cons_eq_append_conv ids)
  then show ?thesis using h d(4) by simp
qed

subsection \<open>Edit\<close>

lemma edit_matched_found:
  assumes "find_index (\<lambda>p. ProductID p = Some sProductId) (products st) = Some i"
  shows "Edit_input f rows (snd (Edit_onEditMatched sProductId st)) =
           st\<lparr>store := store st @ [f (json_copy (products st ! i))],
              editModel := Some (length (store st)),
              editSpecs := rows,
              productIndex := Some i\<rparr>"
proof -
  have i: "i < length (aProducts st)"
    using find_index_Some [OF assms] by (simp add: length_products)
  show ?thesis
    using i
    by (simp add: Edit_onEditMatched_def find_index_products assms Let_def Edit_input_def
          form_input_def products_nth)
qed

lemma edit_flow_invalid:
  assumes "find_index (\<lambda>p. ProductID p = Some sProductId) (products st) = Some i"
    and "required_missing (f (json_copy (products st ! i)))"
  shows "edit_flow sProductId f rows st =
           Some ([MessageBoxError ''Please fill in all required fields''],
                 Edit_input f rows (snd (Edit_onEditMatched sProductId st)))"
  using assms(2)
  by (simp add: edit_flow_def Edit_onSavePress_def edit_matched_found [OF assms(1)])

lemma edit_flow_result:
  assumes "find_index (\<lambda>p. ProductID p = Some sProductId) (products st) = Some i"
    and "\<not> required_missing (f (json_copy (products st ! i)))"
  shows "edit_flow sProductId f rows st =
           Some ([MessageToast ''Product updated successfully'',
                  NavTo (RDetail (ProductID (f (json_copy (products st ! i)))))],
                 st\<lparr>store := store st @
                       [(f (json_copy (products st ! i)))\<lparr>Specifications := collect_specs rows\<rparr>],
                    editModel := Some (length (store st)),
                    editSpecs := rows,
                    productIndex := Some i,
                    aProducts := (aProducts st)[i := length (store st)]\<rparr>)"
proof -
  have i: "i < length (aProducts st)"
    using find_index_Some [OF assms(1)] by (simp add: length_products)
  show ?thesis
    using assms(2) i
    by (simp add: edit_flow_def Edit_onSavePress_def edit_matched_found [OF assms(1)]
          Let_def array_set_def)
qed

lemma products_after_edit:
  assumes "refs_ok st" and "i < length (aProducts st)"
  shows "products (st\<lparr>store := store st @ [e], editModel := m, editSpecs := rows,
                      productIndex := k, aProducts := (aProducts st)[i := length (store st)]\<rparr>)
         = (products st)[i := e]"
proof -
  have refs: "list_all (\<lambda>r. r < length (store st)) (aProducts st)"
    using assms(1) by (simp add: refs_ok_def)
  have "map ((!) (store st @ [e])) ((aProducts st)[i := length (store st)])
        = (map ((!) (store st @ [e])) (aProducts st))[i := e]"
    by (simp add: map_update)
  then show ?thesis
    using refs by (simp add: products_def products_nth_append)
qed

text \<open>
  Claim C7.  When the \<open>ProductID\<close> is found at index \<open>i\<close> and the form passes the
  validation, saving in the Edit flow replaces exactly the element at \<open>i\<close> with the
  edited record (the copy of the record as the user changed it, with the
  specifications of the table): the length of the array is unchanged and so is the
  element at every other index.
\<close>

theorem edit_replaces_in_place:
  assumes "refs_ok st"
    and "find_index (\<lambda>p. ProductID p = Some sProductId) (products st) = Some i"
    and "\<not> required_missing (f (json_copy (products st ! i)))"
  shows "\<exists>effects st'.
           edit_flow sProductId f rows st = Some (effects, st')
           \<and> products st'
               = (products st)[i := (f (json_copy (products st ! i)))
                                      \<lparr>Specifications := collect_specs rows\<rparr>]
           \<and> length (products st') = length (products st)
           \<and> products st' ! i
               = (f (json_copy (products st ! i)))\<lparr>Specifications := collect_specs rows\<rparr>
           \<and> (\<forall>j < length (products st). j \<noteq> i \<longrightarrow> products st' ! j = products st ! j)"
proof -
  have i: "i < length (aProducts st)"
    using find_index_Some [OF assms(2)] by (simp add: length_products)
  show ?thesis
    using i
    by (simp add: edit_flow_result [where f=f, OF assms(2,3)] products_after_edit [OF assms(1) i]
          length_products)
qed

theorem edit_replaces_in_place_witness:
  "refs_ok (loaded_app [sample_product ''3'' ''Desk'', sample_product ''1'' ''Laptop''])
   \<and> find_index (\<lambda>p. ProductID p = Some ''1'')
        (products (loaded_app [sample_product ''3'' ''Desk'', sample_product ''1'' ''Laptop'']))
      = Some 1
   \<and> \<not> required_missing (typed ''Laptop Pro'' (JStr ''1500'')
        (json_copy (products (loaded_app [sample_product ''3'' ''Desk'', sample_product ''1'' ''Laptop'']) ! 1)))
   \<and> (\<exists>effects st'.
         edit_flow ''1'' (typed ''Laptop Pro'' (JStr ''1500'')) [(''RAM'', ''32GB'')]
           (loaded_app [sample_product ''3'' ''Desk'', sample_product ''1'' ''Laptop''])
           = Some (effects, st')
         \<and> map Name (products st') = [''Desk'', ''Laptop Pro'']
         \<and> map ProductID (products st') = [Some ''3'', Some ''1''])"
proof -
  let ?st = "loaded_app [sample_product ''3'' ''Desk'', sample_product ''1'' ''Laptop'']"
  let ?f = "typed ''Laptop Pro'' (JStr ''1500'')"
  have h1: "refs_ok ?st" by code_simp
  have h2: "find_index (\<lambda>p. ProductID p = Some ''1'') (products ?st) = Some 1" by code_simp
  have h3: "\<not> required_missing (?f (json_copy (products ?st ! 1)))" by code_simp
  have xs: "products ?st = [sample_product ''3'' ''Desk'', sample_product ''1'' ''Laptop'']"
    by code_simp
  obtain effects st' where r:
    "edit_flow ''1'' ?f [(''RAM'', ''32GB'')] ?st = Some (effects, st')"
    "products st' = (products ?st)[1 := (?f (json_copy (products ?st ! 1)))
                                      \<lparr>Specifications := collect_specs [(''RAM'', ''32GB'')]\<rparr>]"
    using edit_replaces_in_place [where f="?f" and rows="[(''RAM'', ''32GB'')]", OF h1 h2 h3]
    by blast
  have nm: "map Name (products st') = [''Desk'', ''Laptop Pro'']"
    "map ProductID (products st') = [Some ''3'', Some ''1'']"
    unfolding r(2) xs by (simp_all add: typed_def json_copy_def sample_product_def)
  have "\<exists>effects st'.
         edit_flow ''1'' ?f [(''RAM'', ''32GB'')] ?st = Some (effects, st')
         \<and> map Name (products st') = [''Desk'', ''Laptop Pro'']
         \<and> map ProductID (products st') = [Some ''3'', Some ''1'']"
    by (intro exI [of _ effects] exI [of _ st'] conjI) (rule r(1), rule nm(1), rule nm(2))
  with h1 h2 h3 show ?thesis by (intro conjI)
qed

subsection \<open>Validation\<close>

lemma create_input_state:
  "Create_input f rows (Create_onCreateMatched today st)
   = st\<lparr>store := store st @ [f (new_product today)],
        createModel := Some (length (store st)), createSpecs := rows\<rparr>"
  by (simp add: Create_input_def Create_onCreateMatched_def form_input_def)

lemma products_store_append:
  assumes "refs_ok st" and "store st' = store st @ ys" and "aProducts st' = aProducts st"
  shows "products st' = products st"
proof -
  have "list_all (\<lambda>r. r < length (store st)) (aProducts st)"
    using assms(1) by (simp add: refs_ok_def)
  then show ?thesis by (simp add: products_def assms(2,3) products_nth_append)
qed

lemma products_create_input:
  "refs_ok st \<Longrightarrow> products (Create_input f rows (Create_onCreateMatched today st)) = products st"
  by (rule products_store_append [where ys="[f (new_product today)]"])
     (simp_all add: create_input_state)

lemma products_edit_input:
  assumes "refs_ok st"
    and "find_index (\<lambda>p. ProductID p = Some sProductId) (products st) = Some i"
  shows "products (Edit_input f rows (snd (Edit_onEditMatched sProductId st))) = products st"
  by (rule products_store_append [where ys="[f (json_copy (products st ! i))]"])
     (simp_all add: assms(1) edit_matched_found [OF assms(2)])

text \<open>
  Claim C4.  In the Create and in the Edit flow, a save with \<open>Name\<close> or \<open>Price\<close> missing
  (falsy) shows the error box "Please fill in all required fields" and returns with the
  whole state, the products array included, unchanged.  With both present no error box
  is shown and the save goes through: Create appends a record, Edit replaces the record
  it was opened for.
\<close>

theorem validation_blocks_save:
  assumes "refs_ok st"
  shows "(let st1 = Create_input f rows (Create_onCreateMatched today st)
          in (required_missing (f (new_product today)) \<longrightarrow>
                Create_onSavePress st1
                  = ([MessageBoxError ''Please fill in all required fields''], st1)
                \<and> products st1 = products st)
             \<and> (\<not> required_missing (f (new_product today)) \<longrightarrow>
                  fst (Create_onSavePress st1)
                    = [MessageToast ''Product created successfully'', NavTo RMaster]
                  \<and> length (products (snd (Create_onSavePress st1)))
                      = length (products st) + 1))
         \<and> (find_index (\<lambda>p. ProductID p = Some sProductId) (products st) = Some i \<longrightarrow>
             (let st2 = Edit_input g rows2 (snd (Edit_onEditMatched sProductId st));
                  e = g (json_copy (products st ! i))
              in (required_missing e \<longrightarrow>
                    Edit_onSavePress st2
                      = Some ([MessageBoxError ''Please fill in all required fields''], st2)
                    \<and> products st2 = products st)
                 \<and> (\<not> required_missing e \<longrightarrow>
                      (\<exists>st'. Edit_onSavePress st2
                               = Some ([MessageToast ''Product updated successfully'',
                                        NavTo (RDetail (ProductID e))], st')
                             \<and> products st'
                                 = (products st)[i := e\<lparr>Specifications := collect_specs rows2\<rparr>]))))"
proof -
  let ?st1 = "Create_input f rows (Create_onCreateMatched today st)"
  have c1: "Create_onSavePress ?st1
              = ([MessageBoxError ''Please fill in all required fields''], ?st1)"
    if "required_missing (f (new_product today))"
    using that by (simp add: create_input_state Create_onSavePress_def)
  have c2: "products ?st1 = products st"
    using assms by (rule products_create_input)
  have c3: "fst (Create_onSavePress ?st1)
              = [MessageToast ''Product created successfully'', NavTo RMaster]
            \<and> length (products (snd (Create_onSavePress ?st1))) = length (products st) + 1"
    if ok: "\<not> required_missing (f (new_product today))"
    using create_flow_result [where st=st and f=f and today=today and rows=rows, OF assms ok]
    by (simp add: create_flow_def length_products)
  have e: "(let st2 = Edit_input g rows2 (snd (Edit_onEditMatched sProductId st));
                  e = g (json_copy (products st ! i))
              in (required_missing e \<longrightarrow>
                    Edit_onSavePress st2
                      = Some ([MessageBoxError ''Please fill in all required fields''], st2)
                    \<and> products st2 = products st)
                 \<and> (\<not> required_missing e \<longrightarrow>
                      (\<exists>st'. Edit_onSavePress st2
                               = Some ([MessageToast ''Product updated successfully'',
                                        NavTo (RDetail (ProductID e))], st')
                             \<and> products st'
                                 = (products st)[i := e\<lparr>Specifications := collect_specs rows2\<rparr>])))"
    if fi: "find_index (\<lambda>p. ProductID p = Some sProductId) (products st) = Some i"
  proof -
    have i: "i < length (aProducts st)"
      using find_index_Some [OF fi] by (simp add: length_products)
    have e1: "Edit_onSavePress (Edit_input g rows2 (snd (Edit_onEditMatched sProductId st)))
                = Some ([MessageBoxError ''Please fill in all required fields''],
                        Edit_input g rows2 (snd (Edit_onEditMatched sProductId st)))"
      if "required_missing (g (json_copy (products st ! i)))"
      using edit_flow_invalid [where f=g, OF fi that] by (simp add: edit_flow_def)
    have e2: "products (Edit_input g rows2 (snd (Edit_onEditMatched sProductId st))) = products st"
      using assms fi by (rule products_edit_input)
    have e3: "\<exists>st'. Edit_onSavePress (Edit_input g rows2 (snd (Edit_onEditMatched sProductId st)))
                               = Some ([MessageToast ''Product updated successfully'',
                                        NavTo (RDetail (ProductID (g (json_copy (products st ! i)))))], st')
                             \<and> products st'
                                 = (products st)[i := (g (json_copy (products st ! i)))\<lparr>Specifications := collect_specs rows2\<rparr>]"
      if ok: "\<not> required_missing (g (json_copy (products st ! i)))"
      using edit_flow_result [where f=g and rows=rows2, OF fi ok]
      by (simp add: edit_flow_def products_after_edit [OF assms i])
    show ?thesis using e1 e2 e3 by (simp add: Let_def)
  qed
  show ?thesis using c1 c2 c3 e by (simp add: Let_def)
qed

theorem validation_blocks_save_witness:
  "refs_ok (loaded_app [sample_product ''1'' ''Laptop''])
   \<and> required_missing (typed ''Phone'' (JNum (Fin 0)) (new_product ''2024-01-01''))
   \<and> Create_onSavePress (Create_input (typed ''Phone'' (JNum (Fin 0))) []
          (Create_onCreateMatched ''2024-01-01'' (loaded_app [sample_product ''1'' ''Laptop''])))
       = ([MessageBoxError ''Please fill in all required fields''],
          Create_input (typed ''Phone'' (JNum (Fin 0))) []
            (Create_onCreateMatched ''2024-01-01'' (loaded_app [sample_product ''1'' ''Laptop''])))
   \<and> find_index (\<lambda>p. ProductID p = Some ''1'') (products (loaded_app [sample_product ''1'' ''Laptop'']))
       = Some 0
   \<and> required_missing (typed [] (JStr ''5'')
         (json_copy (products (loaded_app [sample_product ''1'' ''Laptop'']) ! 0)))
   \<and> Edit_onSavePress (Edit_input (typed [] (JStr ''5'')) []
          (snd (Edit_onEditMatched ''1'' (loaded_app [sample_product ''1'' ''Laptop'']))))
       = Some ([MessageBoxError ''Please fill in all required fields''],
               Edit_input (typed [] (JStr ''5'')) []
                 (snd (Edit_onEditMatched ''1'' (loaded_app [sample_product ''1'' ''Laptop'']))))"
proof -
  let ?st = "loaded_app [sample_product ''1'' ''Laptop'']"
  have h1: "refs_ok ?st" by code_simp
  have h2: "required_missing (typed ''Phone'' (JNum (Fin 0)) (new_product ''2024-01-01''))"
    by code_simp
  have h3: "find_index (\<lambda>p. ProductID p = Some ''1'') (products ?st) = Some 0" by code_simp
  have h4: "required_missing (typed [] (JStr ''5'') (json_copy (products ?st ! 0)))"
    by code_simp
  note t = validation_blocks_save [where st="?st" and f="typed ''Phone'' (JNum (Fin 0))"
      and rows="[]" and today="''2024-01-01''" and sProductId="''1''" and i=0
      and g="typed [] (JStr ''5'')" and ?rows2.0="[]", OF h1, unfolded Let_def]
  show ?thesis using t h1 h2 h3 h4 by blast
qed

subsection \<open>Uniqueness of the key\<close>

lemma new_id_unused:
  assumes "safe_ids xs"
  shows "Some (show_int (Max (insert 0 (set (numeric_ids xs))) + 1)) \<notin> set (map ProductID xs)"
proof
  define m where "m = Max (insert 0 (set (numeric_ids xs)))"
  have b: "0 \<le> m" "m < 2 ^ 53 - 1"
    using safe_ids_bound [OF assms] by (simp_all only: m_def)
  assume "Some (show_int (Max (insert 0 (set (numeric_ids xs))) + 1)) \<in> set (map ProductID xs)"
  then have "Some (show_int (m + 1)) \<in> set (map ProductID xs)" by (simp only: m_def)
  then obtain p where p: "p \<in> set xs" "ProductID p = Some (show_int (m + 1))" by auto
  have s: "show_int (m + 1) = show_nat (nat (m + 1))" using b(1) by (simp add: show_int_def)
  have n: "int (nat (m + 1)) < 2 ^ 53" using b by simp
  have "parseInt (js_string (ProductID p)) = IntFin (int (nat (m + 1)))"
    using parseInt_show_nat [OF n] by (simp add: p(2) js_string_def s)
  then have "parseInt (js_string (ProductID p)) = IntFin (m + 1)" using b(1) by simp
  then have "\<exists>p \<in> set xs. parseInt (js_string (ProductID p)) = IntFin (m + 1)"
    using p(1) by blast
  then have "m + 1 \<in> set (numeric_ids xs)" by (simp only: numeric_ids_mem)
  then have "m + 1 \<le> Max (insert 0 (set (numeric_ids xs)))" by (intro Max_ge) simp_all
  then show False by (simp add: m_def)
qed

lemma create_flow_invalid:
  assumes "required_missing (f (new_product today))"
  shows "create_flow today f rows st
         = ([MessageBoxError ''Please fill in all required fields''],
            Create_input f rows (Create_onCreateMatched today st))"
  using assms by (simp add: create_flow_def create_input_state Create_onSavePress_def)

lemma create_flow_distinct:
  assumes "refs_ok st" and "distinct (map ProductID (products st))"
    and "safe_ids (products st)"
  shows "distinct (map ProductID (products (snd (create_flow today f rows st))))"
proof (cases "required_missing (f (new_product today))")
  case True
  then show ?thesis
    using assms(1,2) by (simp add: create_flow_invalid products_create_input)
next
  case False
  have "products (snd (create_flow today f rows st))
        = products st @ [(f (new_product today))
             \<lparr>Specifications := collect_specs rows,
              ProductID := Some (show_int (Max (insert 0 (set (numeric_ids (products st)))) + 1))\<rparr>]"
    using create_flow_products [where st=st and f=f and today=today and rows=rows, OF assms(1) False]
    by (simp only: generateProductId_safe [OF assms(3)])
  then show ?thesis
    using assms(2) new_id_unused [OF assms(3)] by simp
qed

lemma distinct_splice1: "distinct ys \<Longrightarrow> distinct (splice1 j ys)"
proof -
  assume d: "distinct ys"
  have "distinct (take j ys @ drop j ys)" using d by simp
  then have "set (take j ys) \<inter> set (drop j ys) = {}" by (simp only: distinct_append)
  moreover have "set (drop (Suc j) ys) \<subseteq> set (drop j ys)"
    by (rule set_drop_subset_set_drop) simp
  ultimately have "set (take j ys) \<inter> set (drop (Suc j) ys) = {}" by blast
  then show ?thesis using d by (simp add: splice1_def)
qed

lemma delete_flow_distinct:
  assumes "distinct (map ProductID (products st))"
  shows "distinct (map ProductID (products (snd (delete_flow sProductId oAction st))))"
proof -
  have m: "products (snd (Detail_onProductMatched sProductId st)) = products st"
    by (simp add: Detail_onProductMatched_def products_def split: option.split)
  have p: "products (snd (Detail_onDeletePress s)) = products s" for s
    by (simp add: Detail_onDeletePress_def products_def)
  have c: "distinct (map ProductID (products (snd (Detail_onClose oAction s))))"
    if "distinct (map ProductID (products s))" for s
    using that distinct_splice1 [of "map ProductID (products s)"]
    by (auto simp: Detail_onClose_def products_def splice1_def take_map drop_map
          split: option.split)
  show ?thesis unfolding delete_flow_def
    by (rule c) (simp add: p m assms)
qed

lemma json_copy_ProductID: "ProductID (json_copy p) = ProductID p"
  by (simp add: json_copy_def)

lemma edit_flow_distinct:
  assumes "refs_ok st" and "distinct (map ProductID (products st))"
    and "Some sProductId \<in> set (map ProductID (products st))"
    and "\<forall>p. ProductID (g p) = ProductID p"
  shows "\<exists>effects st'. edit_flow sProductId g rows st = Some (effects, st')
           \<and> distinct (map ProductID (products st'))"
proof -
  have "\<exists>x \<in> set (products st). ProductID x = Some sProductId" using assms(3) by auto
  then obtain i where fi: "find_index (\<lambda>p. ProductID p = Some sProductId) (products st) = Some i"
    using find_index_present [of "products st" "\<lambda>p. ProductID p = Some sProductId"] by blast
  have i: "i < length (aProducts st)"
    using find_index_Some [OF fi] by (simp add: length_products)
  show ?thesis
  proof (cases "required_missing (g (json_copy (products st ! i)))")
    case True
    show ?thesis
      using assms(2)
      by (simp add: edit_flow_invalid [where f=g, OF fi True] products_edit_input [OF assms(1) fi])
  next
    case False
    have "map ProductID ((products st)[i := (g (json_copy (products st ! i)))\<lparr>Specifications := collect_specs rows\<rparr>])
          = map ProductID (products st)"
      using assms(4) i
      by (simp add: map_update json_copy_ProductID length_products list_update_same_conv)
    then show ?thesis
      using assms(2)
      by (simp add: edit_flow_result [where f=g, OF fi False] products_after_edit [OF assms(1) i])
  qed
qed

text \<open>
  Claim C3, as amended.  Uniqueness of \<open>ProductID\<close> is kept by the three flows, each
  begun by its route handler.  From a products array with pairwise distinct IDs, the IDs
  are still pairwise distinct after the Create flow with one press of Save, when the
  numeric IDs of the array are all below \<open>2 ^ 53 - 1\<close> (the generated ID then equals no
  ID of the array); after the Edit flow on an ID of the array, when the form leaves the
  \<open>ProductID\<close> of the edited copy as it is; and after the Delete flow, whatever the
  action that closes the dialog.
\<close>

theorem product_ids_stay_distinct:
  assumes "refs_ok st" and "distinct (map ProductID (products st))"
  shows "(safe_ids (products st) \<longrightarrow>
            distinct (map ProductID (products (snd (create_flow today f rows st)))))
         \<and> (Some sProductId \<in> set (map ProductID (products st))
              \<and> (\<forall>p. ProductID (g p) = ProductID p)
            \<longrightarrow> (\<exists>effects st'. edit_flow sProductId g rows2 st = Some (effects, st')
                   \<and> distinct (map ProductID (products st'))))
         \<and> distinct (map ProductID (products (snd (delete_flow sDeleteId oAction st))))"
  using create_flow_distinct [OF assms] edit_flow_distinct [OF assms] delete_flow_distinct [OF assms(2)]
  by blast

text \<open>
  Claim C3 as first stated holds the key unique after any Create, Edit or Delete
  operation.  Three operations break it.  A second press of Save on the same Create
  form: the form's object is in the array already, gets the next ID and is pushed once
  more, so the IDs 1, 7, 8 become 1, 7, 9, 9.  An Edit whose form rewrote the key to
  that of another record: 3, 1 becomes 3, 3.  A Create on the ID \<open>"9007199254740992"\<close>:
  the same ID is issued again.
\<close>

theorem product_ids_stay_distinct_counterexample:
  "map ProductID (products (snd (create_flow ''2024-01-01'' (typed ''Phone'' (JStr ''499'')) []
       (loaded_app [sample_product ''1'' ''Laptop'', sample_product ''7'' ''Mouse'']))))
     = [Some ''1'', Some ''7'', Some ''8'']
   \<and> map ProductID (products (snd (Create_onSavePress
         (snd (create_flow ''2024-01-01'' (typed ''Phone'' (JStr ''499'')) []
           (loaded_app [sample_product ''1'' ''Laptop'', sample_product ''7'' ''Mouse''])))))) 
       = [Some ''1'', Some ''7'', Some ''9'', Some ''9'']
   \<and> map ProductID (products (loaded_app [sample_product ''3'' ''Desk'', sample_product ''1'' ''Laptop'']))
       = [Some ''3'', Some ''1'']
   \<and> map_option (\<lambda>r. map ProductID (products (snd r)))
         (edit_flow ''1'' (rekeyed ''3'') []
            (loaded_app [sample_product ''3'' ''Desk'', sample_product ''1'' ''Laptop'']))
       = Some [Some ''3'', Some ''3'']
   \<and> map ProductID (products (snd (create_flow ''2024-01-01'' (typed ''Phone'' (JStr ''499'')) []
         (loaded_app [sample_product ''9007199254740992'' ''Laptop'']))))
       = [Some ''9007199254740992'', Some ''9007199254740992'']
   \<and> distinct (map ProductID (products (snd (create_flow ''2024-01-01''
         (typed ''Phone'' (JStr ''499'')) []
         (loaded_app [sample_product ''1'' ''Laptop'', sample_product ''7'' ''Mouse''])))))
   \<and> \<not> distinct (map ProductID (products (snd (Create_onSavePress
         (snd (create_flow ''2024-01-01'' (typed ''Phone'' (JStr ''499'')) []
           (loaded_app [sample_product ''1'' ''Laptop'', sample_product ''7'' ''Mouse'']))))))) 
   \<and> distinct (map ProductID
         (products (loaded_app [sample_product ''3'' ''Desk'', sample_product ''1'' ''Laptop''])))
   \<and> distinct (map ProductID
         (products (loaded_app [sample_product ''9007199254740992'' ''Laptop''])))
   \<and> \<not> distinct (map ProductID (products (snd (create_flow ''2024-01-01''
         (typed ''Phone'' (JStr ''499'')) []
         (loaded_app [sample_product ''9007199254740992'' ''Laptop''])))))"
proof -
  let ?f = "typed ''Phone'' (JStr ''499'')"
  let ?st = "loaded_app [sample_product ''1'' ''Laptop'', sample_product ''7'' ''Mouse'']"
  let ?ed = "loaded_app [sample_product ''3'' ''Desk'', sample_product ''1'' ''Laptop'']"
  have ok: "\<not> required_missing (?f (new_product ''2024-01-01''))" by code_simp
  note r = create_flow_result [where f="?f" and today="''2024-01-01''" and rows="[]",
      OF refs_ok_loaded ok]
  note p = create_flow_products [where f="?f" and today="''2024-01-01''" and rows="[]",
      OF refs_ok_loaded ok]
  have g1: "generateProductId ?st = ''8''" by (simp add: eval_ids)
  have g2: "generateProductId (loaded_app [sample_product ''9007199254740992'' ''Laptop''])
            = ''9007199254740992''"
    by (simp add: eval_ids)
  have a: "map ProductID (products (snd (create_flow ''2024-01-01'' ?f [] ?st)))
           = [Some ''1'', Some ''7'', Some ''8'']"
    by (simp add: p g1) (simp add: loaded_app_def products_def sample_product_def)
  have b: "map ProductID (products (snd (Create_onSavePress
             (snd (create_flow ''2024-01-01'' ?f [] ?st)))))
           = [Some ''1'', Some ''7'', Some ''9'', Some ''9'']"
    by (simp add: r g1)
       (simp add: Create_onSavePress_def required_missing_def typed_def new_product_def
          collect_specs_def eval_ids)
  have c: "map ProductID (products ?ed) = [Some ''3'', Some ''1'']"
    by (simp add: loaded_app_def products_def sample_product_def)
  have fi: "find_index (\<lambda>p. ProductID p = Some ''1'') (products ?ed) = Some 1" by code_simp
  have v: "\<not> required_missing (rekeyed ''3'' (json_copy (products ?ed ! 1)))" by code_simp
  have d: "map_option (\<lambda>r. map ProductID (products (snd r)))
             (edit_flow ''1'' (rekeyed ''3'') [] ?ed) = Some [Some ''3'', Some ''3'']"
    by (simp add: edit_flow_result [where f="rekeyed ''3''", OF fi v]
          products_after_edit [OF refs_ok_loaded] length_products)
       (simp add: loaded_app_def products_def sample_product_def rekeyed_def json_copy_def)
  have e: "map ProductID (products (snd (create_flow ''2024-01-01'' ?f []
             (loaded_app [sample_product ''9007199254740992'' ''Laptop'']))))
           = [Some ''9007199254740992'', Some ''9007199254740992'']"
    by (simp add: p g2) (simp add: loaded_app_def products_def sample_product_def)
  have x: "distinct (map ProductID
             (products (loaded_app [sample_product ''9007199254740992'' ''Laptop''])))"
    by (simp add: loaded_app_def products_def sample_product_def)
  show ?thesis using a b c d e x by (intro conjI) simp_all
qed

theorem product_ids_stay_distinct_witness:
  "refs_ok (loaded_app [sample_product ''3'' ''Desk'', sample_product ''1'' ''Laptop''])
   \<and> distinct (map ProductID (products
         (loaded_app [sample_product ''3'' ''Desk'', sample_product ''1'' ''Laptop''])))
   \<and> safe_ids (products (loaded_app [sample_product ''3'' ''Desk'', sample_product ''1'' ''Laptop'']))
   \<and> Some ''1'' \<in> set (map ProductID (products
         (loaded_app [sample_product ''3'' ''Desk'', sample_product ''1'' ''Laptop''])))
   \<and> (\<forall>p. ProductID (typed ''Laptop Pro'' (JStr ''1500'') p) = ProductID p)
   \<and> distinct (map ProductID (products (snd (create_flow ''2024-01-01''
         (typed ''Phone'' (JStr ''499'')) []
         (loaded_app [sample_product ''3'' ''Desk'', sample_product ''1'' ''Laptop''])))))
   \<and> (\<exists>effects st'.
         edit_flow ''1'' (typed ''Laptop Pro'' (JStr ''1500'')) []
           (loaded_app [sample_product ''3'' ''Desk'', sample_product ''1'' ''Laptop''])
           = Some (effects, st')
         \<and> distinct (map ProductID (products st')))
   \<and> distinct (map ProductID (products (snd (delete_flow ''3'' OK
         (loaded_app [sample_product ''3'' ''Desk'', sample_product ''1'' ''Laptop''])))))"
proof -
  let ?st = "loaded_app [sample_product ''3'' ''Desk'', sample_product ''1'' ''Laptop'']"
  have h1: "refs_ok ?st" by code_simp
  have h2: "distinct (map ProductID (products ?st))" by code_simp
  have h3: "Some ''1'' \<in> set (map ProductID (products ?st))" by code_simp
  have h4: "\<forall>p. ProductID (typed ''Laptop Pro'' (JStr ''1500'') p) = ProductID p"
    by (simp add: typed_def)
  have h5: "safe_ids (products ?st)" by (simp add: eval_ids)
  note t = product_ids_stay_distinct [where st="?st" and today="''2024-01-01''"
      and f="typed ''Phone'' (JStr ''499'')" and rows="[]" and sProductId="''1''"
      and g="typed ''Laptop Pro'' (JStr ''1500'')" and ?rows2.0="[]"
      and sDeleteId="''3''" and oAction=OK, OF h1 h2]
  show ?thesis using t h1 h2 h3 h4 h5 by blast
qed

subsection \<open>Search\<close>

text \<open>
  Claim C6.  For a non-empty search query \<open>onSearch\<close> sets one OR group of three
  \<open>Contains\<close> filters, on \<open>Name\<close>, \<open>Description\<close> and \<open>Category\<close>, so the list keeps
  exactly the products of which one of the three fields contains the query.  For an
  empty query the filters are cleared and every product is shown.  The array itself is
  never changed.
\<close>

theorem search_keeps_matches:
  "(event_query oEvent = Some sQuery \<and> sQuery \<noteq> [] \<longrightarrow>
      listFilters (Master_onSearch oEvent st)
        = [MultiFilter [Filter ''Name'' Contains sQuery,
                        Filter ''Description'' Contains sQuery,
                        Filter ''Category'' Contains sQuery] False]
      \<and> shown contains (Master_onSearch oEvent st)
          = filter (\<lambda>p. contains (Name p) sQuery
                         \<or> contains (Description p) sQuery
                         \<or> contains (Category p) sQuery) (products st))
   \<and> (\<not> truthy_string (event_query oEvent) \<longrightarrow>
        listFilters (Master_onSearch oEvent st) = []
        \<and> shown contains (Master_onSearch oEvent st) = products st)
   \<and> products (Master_onSearch oEvent st) = products st"
proof -
  have p: "products (Master_onSearch oEvent st) = products st"
    by (simp add: Master_onSearch_def products_def split: option.split)
  have a: "listFilters (Master_onSearch oEvent st)
        = [MultiFilter [Filter ''Name'' Contains sQuery,
                        Filter ''Description'' Contains sQuery,
                        Filter ''Category'' Contains sQuery] False]"
    if "event_query oEvent = Some sQuery" "sQuery \<noteq> []"
    using that by (simp add: Master_onSearch_def)
  have b: "listFilters (Master_onSearch oEvent st) = []"
    if "\<not> truthy_string (event_query oEvent)"
    using that by (simp add: Master_onSearch_def truthy_string_def split: option.splits)
  have c: "shown contains (Master_onSearch oEvent st)
          = filter (\<lambda>p. contains (Name p) sQuery
                         \<or> contains (Description p) sQuery
                         \<or> contains (Category p) sQuery) (products st)"
    if "event_query oEvent = Some sQuery" "sQuery \<noteq> []"
    by (simp add: shown_def a [OF that] p string_property_def)
  have d: "shown contains (Master_onSearch oEvent st) = products st"
    if "\<not> truthy_string (event_query oEvent)"
    by (simp add: shown_def b [OF that] p)
  show ?thesis using p a b c d by blast
qed

theorem search_keeps_matches_witness:
  "event_query \<lparr>query = Some ''Lap'', newValue = None\<rparr> = Some ''Lap''
   \<and> ''Lap'' \<noteq> []
   \<and> shown is_substring (Master_onSearch \<lparr>query = Some ''Lap'', newValue = None\<rparr>
        (loaded_app [sample_product ''1'' ''Laptop'', sample_product ''2'' ''Mouse'']))
      = [sample_product ''1'' ''Laptop'']
   \<and> \<not> truthy_string (event_query \<lparr>query = Some [], newValue = None\<rparr>)
   \<and> shown is_substring (Master_onSearch \<lparr>query = Some [], newValue = None\<rparr>
        (loaded_app [sample_product ''1'' ''Laptop'', sample_product ''2'' ''Mouse'']))
      = [sample_product ''1'' ''Laptop'', sample_product ''2'' ''Mouse'']"
proof -
  let ?st = "loaded_app [sample_product ''1'' ''Laptop'', sample_product ''2'' ''Mouse'']"
  let ?e1 = "\<lparr>query = Some ''Lap'', newValue = None\<rparr>"
  let ?e0 = "\<lparr>query = Some [], newValue = None\<rparr>"
  have h1: "event_query ?e1 = Some ''Lap''" by code_simp
  have h2: "''Lap'' \<noteq> []" by simp
  have h3: "\<not> truthy_string (event_query ?e0)" by code_simp
  have xs: "products ?st = [sample_product ''1'' ''Laptop'', sample_product ''2'' ''Mouse'']"
    by code_simp
  have f: "filter (\<lambda>p. is_substring (Name p) ''Lap'' \<or> is_substring (Description p) ''Lap''
                       \<or> is_substring (Category p) ''Lap'')
             [sample_product ''1'' ''Laptop'', sample_product ''2'' ''Mouse'']
           = [sample_product ''1'' ''Laptop'']"
    by code_simp
  have "shown is_substring (Master_onSearch ?e1 ?st)
        = filter (\<lambda>p. is_substring (Name p) ''Lap'' \<or> is_substring (Description p) ''Lap''
                       \<or> is_substring (Category p) ''Lap'') (products ?st)"
    using search_keeps_matches [of ?e1 "''Lap''" ?st is_substring] h1 h2 by blast
  then have a: "shown is_substring (Master_onSearch ?e1 ?st) = [sample_product ''1'' ''Laptop'']"
    by (simp only: xs f)
  have "shown is_substring (Master_onSearch ?e0 ?st) = products ?st"
    using search_keeps_matches [of ?e0 "''Lap''" ?st is_substring] h3 by blast
  then have b: "shown is_substring (Master_onSearch ?e0 ?st)
           = [sample_product ''1'' ''Laptop'', sample_product ''2'' ''Mouse'']"
    by (simp only: xs)
  show ?thesis using h1 h2 h3 a b by (intro conjI)
qed

subsection \<open>Formatter\<close>

lemma parseFloat_sample:
  "parseFloat Fin (JStr '' -12.5e1 USD'') = Fin (- 125)
   \<and> parseFloat Fin (JStr ''.5'') = Fin (1 / 2)
   \<and> parseFloat Fin (JStr ''$5'') = NaN"
  by (simp add: parseFloat_string_def is_ws_def is_digit_def digits_val_def digit_val_def
        pow10_def exponent_part_def)

lemma digit_char_0: "digit_char 0 = CHR ''0''"
  by code_simp

lemma show_nat_small: "n < 10 \<Longrightarrow> show_nat n = [digit_char n]"
  by (subst show_nat.simps) simp

lemma show_nat_step: "10 \<le> n \<Longrightarrow> show_nat n = show_nat (n div 10) @ [digit_char (n mod 10)]"
  by (subst show_nat.simps) simp

lemma show_nat_two: "10 \<le> n \<Longrightarrow> n < 100 \<Longrightarrow> show_nat n = [digit_char (n div 10), digit_char (n mod 10)]"
  by (simp add: show_nat_step show_nat_small)

lemma show_nat_hundreds:
  assumes "100 \<le> n"
  shows "show_nat n = show_nat (n div 100) @ [digit_char (n div 10 mod 10), digit_char (n mod 10)]"
proof -
  have a: "show_nat n = show_nat (n div 10) @ [digit_char (n mod 10)]"
    using assms by (simp add: show_nat_step)
  have "10 \<le> n div 10" using assms by simp
  then have b: "show_nat (n div 10) = show_nat (n div 10 div 10) @ [digit_char (n div 10 mod 10)]"
    by (rule show_nat_step)
  have c: "n div 10 div 10 = n div 100" by (simp add: div_mult2_eq)
  show ?thesis using a b c by simp
qed

lemma fixed_digits:
  "(let m = show_nat n;
        m' = (if length m \<le> 2 then replicate (3 - length m) (CHR ''0'') @ m else m);
        k = length m'
    in take (k - 2) m' @ ''.'' @ drop (k - 2) m')
   = show_nat (n div 100) @ ''.'' @ [digit_char (n div 10 mod 10), digit_char (n mod 10)]"
proof -
  consider "n < 10" | "10 \<le> n" "n < 100" | "100 \<le> n" by linarith
  then show ?thesis
  proof cases
    case 1
    then show ?thesis
      by (simp add: show_nat_small Let_def digit_char_0 numeral_3_eq_3 numeral_2_eq_2)
  next
    case 2
    then have "n div 10 < 10" by simp
    then show ?thesis using 2
      by (simp add: show_nat_two show_nat_small Let_def digit_char_0)
  next
    case 3
    then show ?thesis
      by (simp add: show_nat_hundreds Let_def show_nat_nonempty)
  qed
qed

lemma nearest_hundredth:
  fixes y :: rat
  assumes "0 \<le> y"
  shows "\<bar>of_nat (nat \<lfloor>y * 100 + 1 / 2\<rfloor>) / 100 - y\<bar> \<le> 1 / 200"
proof -
  define z :: rat where "z = of_int \<lfloor>y * 100 + 1 / 2\<rfloor>"
  have nn: "0 \<le> \<lfloor>y * 100 + 1 / 2\<rfloor>" using assms by simp
  have eq: "(of_nat (nat \<lfloor>y * 100 + 1 / 2\<rfloor>) :: rat) = z" using nn by (simp add: z_def)
  have lo: "z \<le> y * 100 + 1 / 2" unfolding z_def by (rule of_int_floor_le)
  have hi: "y * 100 + 1 / 2 < z + 1"
    unfolding z_def using floor_correct [of "y * 100 + 1 / 2"] by simp
  have "z / 100 - y \<le> 1 / 200" "- (1 / 200) \<le> z / 100 - y" using lo hi by linarith+
  then have "\<bar>z / 100 - y\<bar> \<le> 1 / 200" by linarith
  then show ?thesis by (simp only: eq)
qed

lemma two_decimals_shape:
  assumes "a < 10" "b < 10" "s = [] \<or> s = ''-''"
  shows "two_decimals (s @ show_nat q @ ''.'' @ [digit_char a, digit_char b])"
proof -
  obtain c cs where q: "show_nat q = c # cs" using show_nat_nonempty [of q] by (cases "show_nat q") auto
  have dig: "\<forall>x \<in> set (show_nat q). is_digit x" using show_nat_digits by blast
  have c: "is_digit c" using dig q by simp
  have cm: "c \<noteq> CHR ''-''" using c is_digit_not_sign by blast
  have dot: "\<not> is_digit (CHR ''.'')" by (simp add: is_digit_def)
  let ?rest = "''.'' @ [digit_char a, digit_char b]"
  have strip: "(case s @ show_nat q @ ?rest of [] \<Rightarrow> []
                | c # r \<Rightarrow> if c = CHR ''-'' then r else s @ show_nat q @ ?rest)
               = show_nat q @ ?rest"
    using assms(3) q cm by auto
  have tw: "takeWhile is_digit (show_nat q @ ?rest) = show_nat q"
    using dig dot by (simp add: takeWhile_append2)
  have dw: "dropWhile is_digit (show_nat q @ ?rest) = ?rest"
    using dig dot by (simp add: dropWhile_append2)
  show ?thesis
    unfolding two_decimals_def strip Let_def tw dw
    using assms(1,2) show_nat_nonempty [of q] by (simp add: is_digit_digit_char)
qed

lemma toFixed2_finite:
  assumes "\<bar>x\<bar> < 10 ^ 21"
  shows "toFixed2 (Fin x)
         = Some ((if x < 0 then ''-'' else []) @ show_nat (nat \<lfloor>\<bar>x\<bar> * 100 + 1 / 2\<rfloor> div 100) @ ''.''
                 @ [digit_char (nat \<lfloor>\<bar>x\<bar> * 100 + 1 / 2\<rfloor> div 10 mod 10),
                    digit_char (nat \<lfloor>\<bar>x\<bar> * 100 + 1 / 2\<rfloor> mod 10)])"
proof -
  have lt: "\<not> 10 ^ 21 \<le> \<bar>x\<bar>" using assms by simp
  show ?thesis
    unfolding toFixed2_def jsnum.case if_not_P [OF lt]
    using fixed_digits [of "nat \<lfloor>\<bar>x\<bar> * 100 + 1 / 2\<rfloor>"]
    by (simp only: Let_def append_assoc)
qed

text \<open>
  Claim C9, as amended.  \<open>formatPrice\<close> returns the empty string when the price is falsy
  (the number 0 included).  Otherwise, when \<open>parseFloat\<close> of the price is a finite number
  below \<open>10 ^ 21\<close> in magnitude, it returns that number with exactly two decimal places:
  an optional minus sign, the digits of \<open>n div 100\<close>, a point and the two last digits of
  \<open>n\<close>, where \<open>n / 100\<close> is within half a hundredth of the magnitude.  The currency
  argument never affects the result.
\<close>

theorem formatPrice_two_decimals:
  "(falsy price \<longrightarrow> formatPrice rd price currency = Some [])
   \<and> (\<not> falsy price \<and> parseFloat rd price = Fin x \<and> \<bar>x\<bar> < 10 ^ 21 \<longrightarrow>
        (\<exists>n s. formatPrice rd price currency = Some s
               \<and> two_decimals s
               \<and> s = (if x < 0 then ''-'' else []) @ show_nat (n div 100) @ ''.''
                      @ [digit_char (n div 10 mod 10), digit_char (n mod 10)]
               \<and> \<bar>of_nat n / 100 - \<bar>x\<bar>\<bar> \<le> 1 / 200))
   \<and> formatPrice rd price currency = formatPrice rd price currency2"
proof -
  have a: "falsy price \<Longrightarrow> formatPrice rd price currency = Some []"
    by (simp add: formatPrice_def)
  have c: "formatPrice rd price currency = formatPrice rd price currency2"
    by (simp add: formatPrice_def)
  have b: "\<exists>n s. formatPrice rd price currency = Some s
               \<and> two_decimals s
               \<and> s = (if x < 0 then ''-'' else []) @ show_nat (n div 100) @ ''.''
                      @ [digit_char (n div 10 mod 10), digit_char (n mod 10)]
               \<and> \<bar>of_nat n / 100 - \<bar>x\<bar>\<bar> \<le> 1 / 200"
    if h: "\<not> falsy price" "parseFloat rd price = Fin x" "\<bar>x\<bar> < 10 ^ 21"
  proof -
    let ?n = "nat \<lfloor>\<bar>x\<bar> * 100 + 1 / 2\<rfloor>"
    let ?s = "(if x < 0 then ''-'' else []) @ show_nat (?n div 100) @ ''.''
                @ [digit_char (?n div 10 mod 10), digit_char (?n mod 10)]"
    have f: "formatPrice rd price currency = Some ?s"
      using h(1,2) toFixed2_finite [OF h(3)] by (simp add: formatPrice_def)
    have t: "two_decimals ?s"
      by (rule two_decimals_shape) simp_all
    have e: "\<bar>of_nat ?n / 100 - \<bar>x\<bar>\<bar> \<le> 1 / 200"
      by (rule nearest_hundredth) simp
    show ?thesis
      by (intro exI [of _ ?n] exI [of _ ?s] conjI) (rule f, rule t, rule refl, rule e)
  qed
  show ?thesis using a b c by blast
qed

text \<open>
  Claim C9 as first stated promises two decimal places for every truthy price.  The
  string \<open>"abc"\<close> is truthy and is formatted as \<open>"NaN"\<close>; the number \<open>Infinity\<close> is
  truthy and is formatted as \<open>"Infinity"\<close>.  (The rounding \<open>rd\<close> plays no part in
  either; it is set to the exact value.)
\<close>

theorem formatPrice_not_decimal_counterexample:
  "\<not> falsy (JStr ''abc'')
   \<and> formatPrice Fin (JStr ''abc'') ''USD'' = Some ''NaN''
   \<and> \<not> two_decimals ''NaN''
   \<and> \<not> falsy (JNum PosInf)
   \<and> formatPrice Fin (JNum PosInf) ''USD'' = Some ''Infinity''
   \<and> \<not> two_decimals ''Infinity''"
  by code_simp

theorem formatPrice_two_decimals_witness:
  "falsy (JNum (Fin 0))
   \<and> formatPrice Fin (JNum (Fin 0)) ''USD'' = Some []
   \<and> \<not> falsy (JNum (Fin (2599 / 2)))
   \<and> parseFloat Fin (JNum (Fin (2599 / 2))) = Fin (2599 / 2)
   \<and> \<bar>2599 / 2 :: rat\<bar> < 10 ^ 21
   \<and> (\<exists>s. formatPrice Fin (JNum (Fin (2599 / 2))) ''USD'' = Some s \<and> two_decimals s)
   \<and> formatPrice Fin (JNum (Fin (2599 / 2))) ''USD'' = Some ''1299.50''"
proof -
  have h0: "falsy (JNum (Fin 0))" by simp
  have h1: "\<not> falsy (JNum (Fin (2599 / 2)))" by simp
  have h2: "parseFloat Fin (JNum (Fin (2599 / 2))) = Fin (2599 / 2)" by simp
  have h3: "\<bar>2599 / 2 :: rat\<bar> < 10 ^ 21" by simp
  have z: "formatPrice Fin (JNum (Fin 0)) ''USD'' = Some []"
    using formatPrice_two_decimals [of "JNum (Fin 0)" Fin "''USD''"] h0 by blast
  obtain n s where d: "formatPrice Fin (JNum (Fin (2599 / 2))) ''USD'' = Some s" "two_decimals s"
    "s = (if (2599 / 2 :: rat) < 0 then ''-'' else []) @ show_nat (n div 100) @ ''.''
           @ [digit_char (n div 10 mod 10), digit_char (n mod 10)]"
    "\<bar>of_nat n / 100 - \<bar>2599 / 2 :: rat\<bar>\<bar> \<le> 1 / 200"
    using formatPrice_two_decimals [of "JNum (Fin (2599 / 2))" Fin "''USD''" "2599 / 2"] h1 h2 h3
    by blast
  have "(of_nat n :: rat) \<le> 129950 + 1 / 2" "129950 - 1 / 2 \<le> (of_nat n :: rat)"
    using d(4) by linarith+
  then have "(of_nat n :: rat) < of_nat 129951" "(of_nat 129949 :: rat) < of_nat n" by simp_all
  then have "n < 129951" "129949 < n" by (simp_all only: of_nat_less_iff)
  then have n: "n = 129950" by simp
  have s1: "show_nat 1299 = ''1299''" by code_simp
  have d5: "digit_char 5 = CHR ''5''" by code_simp
  have s: "s = ''1299.50''" unfolding d(3) n by (simp add: s1 d5 digit_char_0)
  show ?thesis using h0 h1 h2 h3 z d(1,2) s by (intro conjI) auto
qed

end
